theory Spec2Isabelle
  imports Main "HOL-Library.Word"
begin

section \<open>JavaScript values\<close>

text \<open>
  The SDK is TypeScript; at run time its data are JavaScript values. The values that travel
  between the application, the client and the service are modelled by \<open>jsval\<close>.

  A Number is a safe integer: a value of the 54-bit two's-complement range, from \<open>-2^53\<close>
  up to \<open>2^53 - 1\<close>, read with \<open>sint\<close>. These are Numbers that \<open>String\<close> prints in
  plain decimal, digit for digit. Other Numbers (fractions, larger magnitudes, NaN, the
  infinities) are outside the model. A BigInt is an \<open>int\<close>. A string is a byte string
  (the UTF-8 bytes of the text).

  An object is a plain data object (prototype \<open>Object.prototype\<close>, no accessors, no
  function-valued properties), given as the list of its own properties in definition
  order; when a list names a key twice the later entry is the property's value, as for an
  object built by defining the entries one after the other. Values are finite trees:
  a structure that contains itself cannot be written down.
\<close>

type_synonym number = "54 word"

datatype jsval =
    JUndefined
  | JNull
  | JBool bool
  | JNum number
  | JBigInt int
  | JStr string
  | JArr "jsval list"
  | JObj "(string \<times> jsval) list"

type_synonym jsobj = "(string \<times> jsval) list"

text \<open>\<open>v == null\<close>: true of \<open>undefined\<close> and \<open>null\<close> only.\<close>

definition nullish :: "jsval \<Rightarrow> bool" where
  "nullish v = (v = JUndefined \<or> v = JNull)"

text \<open>\<open>a ?? b\<close>.\<close>

definition coalesce :: "jsval \<Rightarrow> jsval \<Rightarrow> jsval" where
  "coalesce a b = (if nullish a then b else a)"

text \<open>\<open>o.k\<close> for an object \<open>o\<close> and a key that is no built-in property.\<close>

definition obj_get :: "(string \<times> jsval) list \<Rightarrow> string \<Rightarrow> jsval" where
  "obj_get ps k = (case map_of (rev ps) k of None \<Rightarrow> JUndefined | Some v \<Rightarrow> v)"

text \<open>
  Defining property \<open>k\<close> on an object (\<open>{...o, k: v}\<close>, and \<open>URLSearchParams.set\<close>): an
  existing key keeps its place and takes the new value, a new key goes last.
\<close>

fun obj_set :: "string \<Rightarrow> 'v \<Rightarrow> (string \<times> 'v) list \<Rightarrow> (string \<times> 'v) list" where
  "obj_set k v [] = [(k, v)]"
| "obj_set k v ((k', v') # ps) =
     (if k' = k then (k, v) # filter (\<lambda>p. fst p \<noteq> k) ps else (k', v') # obj_set k v ps)"

text \<open>\<open>{...target, ...source}\<close>: the properties of \<open>source\<close> defined on \<open>target\<close> in order.\<close>

definition spread :: "(string \<times> 'v) list \<Rightarrow> (string \<times> 'v) list \<Rightarrow> (string \<times> 'v) list" where
  "spread source target = fold (\<lambda>p acc. obj_set (fst p) (snd p) acc) source target"

section \<open>Errors\<close>

text \<open>
  What a promise can reject with (and \<open>throw\<close> can throw): the SDK's two error classes,
  any other \<open>Error\<close> instance (by its name and message), or a value that is no \<open>Error\<close>
  at all. \<open>AsqioNetworkError.cause\<close> is whatever was caught. A computation that can throw
  has a result of type \<open>thrown + 'a\<close>: \<open>Inl\<close> what it threw, \<open>Inr\<close> what it returned.
\<close>

datatype thrown =
    AsqioError string jsval number
  | AsqioNetworkError string thrown
  | OtherError string string
  | NonError jsval

text \<open>\<open>e instanceof Error\<close>, \<open>e instanceof AsqioError\<close>, \<open>e instanceof AsqioNetworkError\<close>.\<close>

fun instanceof_Error :: "thrown \<Rightarrow> bool" where
  "instanceof_Error (NonError v) = False"
| "instanceof_Error e = True"

fun instanceof_AsqioError :: "thrown \<Rightarrow> bool" where
  "instanceof_AsqioError (AsqioError m c s) = True"
| "instanceof_AsqioError e = False"

fun instanceof_AsqioNetworkError :: "thrown \<Rightarrow> bool" where
  "instanceof_AsqioNetworkError (AsqioNetworkError m c) = True"
| "instanceof_AsqioNetworkError e = False"

section \<open>Built-in conversions\<close>

subsection \<open>Conversion to string\<close>

definition digit_char :: "nat \<Rightarrow> char" where
  "digit_char d = ''0123456789'' ! (d mod 10)"

function show_nat :: "nat \<Rightarrow> string" where
  "show_nat n = (if n < 10 then [digit_char n] else show_nat (n div 10) @ [digit_char (n mod 10)])"
  by pat_completeness auto
termination
  by (relation "measure id") auto

declare show_nat.simps [simp del]

definition show_int :: "int \<Rightarrow> string" where
  "show_int i = (if i < 0 then CHR ''-'' # show_nat (nat (- i)) else show_nat (nat i))"

text \<open>
  \<open>String(v)\<close>, the conversion a template literal applies, and the one the \<open>Error\<close>
  constructor applies to its message. A primitive always converts. An object converts
  through its \<open>toString\<close>: a data object with no own \<open>toString\<close> property inherits the
  one that answers \<open>[object Object]\<close>; an own \<open>toString\<close> property hides it, is not
  callable (a data object holds no functions), and \<open>valueOf\<close> gives back the object, so
  the conversion throws a TypeError (the message is V8's). An array joins the conversions
  of its elements with commas, from left to right, \<open>undefined\<close> and \<open>null\<close> elements
  giving nothing; it throws what the first failing element throws.
\<close>

fun toString_js :: "jsval \<Rightarrow> thrown + string"
  and join_js :: "jsval list \<Rightarrow> thrown + string" where
  "toString_js JUndefined = Inr ''undefined''"
| "toString_js JNull = Inr ''null''"
| "toString_js (JBool b) = Inr (if b then ''true'' else ''false'')"
| "toString_js (JNum n) = Inr (show_int (sint n))"
| "toString_js (JBigInt i) = Inr (show_int i)"
| "toString_js (JStr s) = Inr s"
| "toString_js (JArr xs) = join_js xs"
| "toString_js (JObj ps) =
     (if ''toString'' \<in> set (map fst ps)
      then Inl (OtherError ''TypeError'' ''Cannot convert object to primitive value'')
      else Inr ''[object Object]'')"
| "join_js [] = Inr []"
| "join_js (x # xs) =
     (case (if x = JUndefined \<or> x = JNull then Inr [] else toString_js x) of
        Inl e \<Rightarrow> Inl e
      | Inr s \<Rightarrow>
          if xs = [] then Inr s
          else (case join_js xs of Inl e \<Rightarrow> Inl e | Inr r \<Rightarrow> Inr (s @ '','' @ r)))"

subsection \<open>JSON.stringify\<close>

text \<open>
  \<open>JSON.stringify(v)\<close> returns a text; the model returns the document the text denotes.
  A property whose value is \<open>undefined\<close> is left out, an \<open>undefined\<close> array element
  becomes \<open>null\<close>, and the document of \<open>undefined\<close> itself is \<open>undefined\<close> (no text).
  A BigInt anywhere in the value makes the call throw a TypeError (the message is V8's).
  A structure that contains itself makes the real call throw a TypeError in the same way;
  such a structure is not a \<open>jsval\<close>, and the BigInt stands for every value that cannot
  be serialised.
\<close>

fun json_of :: "jsval \<Rightarrow> thrown + jsval"
  and json_elems :: "jsval list \<Rightarrow> thrown + jsval list"
  and json_props :: "(string \<times> jsval) list \<Rightarrow> thrown + (string \<times> jsval) list" where
  "json_of JUndefined = Inr JUndefined"
| "json_of JNull = Inr JNull"
| "json_of (JBool b) = Inr (JBool b)"
| "json_of (JNum n) = Inr (JNum n)"
| "json_of (JBigInt i) = Inl (OtherError ''TypeError'' ''Do not know how to serialize a BigInt'')"
| "json_of (JStr s) = Inr (JStr s)"
| "json_of (JArr xs) = (case json_elems xs of Inl e \<Rightarrow> Inl e | Inr ys \<Rightarrow> Inr (JArr ys))"
| "json_of (JObj ps) = (case json_props ps of Inl e \<Rightarrow> Inl e | Inr qs \<Rightarrow> Inr (JObj qs))"
| "json_elems [] = Inr []"
| "json_elems (x # xs) =
     (case (if x = JUndefined then Inr JNull else json_of x) of
        Inl e \<Rightarrow> Inl e
      | Inr y \<Rightarrow> (case json_elems xs of Inl e \<Rightarrow> Inl e | Inr ys \<Rightarrow> Inr (y # ys)))"
| "json_props [] = Inr []"
| "json_props (p # ps) =
     (if snd p = JUndefined then json_props ps
      else (case json_of (snd p) of
              Inl e \<Rightarrow> Inl e
            | Inr w \<Rightarrow>
                (case json_props ps of Inl e \<Rightarrow> Inl e | Inr qs \<Rightarrow> Inr ((fst p, w) # qs))))"

section \<open>The query string of a paginated request\<close>

text \<open>
  \<open>URLSearchParams.toString()\<close>: the application/x-www-form-urlencoded serialiser. Bytes
  of ASCII letters and digits and of \<open>* - . _\<close> stay, a space becomes \<open>+\<close>, every other
  byte is written \<open>%HH\<close>.
\<close>

fun intercalate :: "string \<Rightarrow> string list \<Rightarrow> string" where
  "intercalate sep [] = []"
| "intercalate sep [s] = s"
| "intercalate sep (s # t # ss) = s @ sep @ intercalate sep (t # ss)"

definition form_safe :: "char \<Rightarrow> bool" where
  "form_safe c =
     (let n = (of_char c :: nat)
      in (48 \<le> n \<and> n \<le> 57) \<or> (65 \<le> n \<and> n \<le> 90) \<or> (97 \<le> n \<and> n \<le> 122)
         \<or> n = 42 \<or> n = 45 \<or> n = 46 \<or> n = 95)"

definition hex_digit :: "nat \<Rightarrow> char" where
  "hex_digit d = ''0123456789ABCDEF'' ! (d mod 16)"

definition form_encode_byte :: "char \<Rightarrow> string" where
  "form_encode_byte c =
     (if c = CHR '' '' then ''+''
      else if form_safe c then [c]
      else [CHR ''%'', hex_digit (of_char c div 16), hex_digit (of_char c mod 16)])"

definition form_encode :: "string \<Rightarrow> string" where
  "form_encode s = concat (map form_encode_byte s)"

definition search_toString :: "(string \<times> string) list \<Rightarrow> string" where
  "search_toString ps =
     intercalate ''&'' (map (\<lambda>p. form_encode (fst p) @ ''='' @ form_encode (snd p)) ps)"

text \<open>
  \<open>AsqioClient.buildQuery(params?)\<close>. \<open>None\<close> is the absent argument (\<open>!params\<close>); a
  parameters object is always truthy. \<open>String(params.page)\<close> is evaluated before
  \<open>search.set\<close> is called and can throw, and then \<open>buildQuery\<close> throws.
\<close>

definition buildQuery :: "jsobj option \<Rightarrow> thrown + string" where
  "buildQuery params =
     (case params of
        None \<Rightarrow> Inr []
      | Some p \<Rightarrow>
          (case (if \<not> nullish (obj_get p ''page'')
                 then (case toString_js (obj_get p ''page'') of
                         Inl e \<Rightarrow> Inl e
                       | Inr s \<Rightarrow> Inr (obj_set ''page'' s []))
                 else Inr []) of
             Inl e \<Rightarrow> Inl e
           | Inr search \<Rightarrow>
               (case (if \<not> nullish (obj_get p ''per_page'')
                      then (case toString_js (obj_get p ''per_page'') of
                              Inl e \<Rightarrow> Inl e
                            | Inr s \<Rightarrow> Inr (obj_set ''per_page'' s search))
                      else Inr search) of
                  Inl e \<Rightarrow> Inl e
                | Inr search \<Rightarrow>
                    (let qs = search_toString search
                     in Inr (if qs \<noteq> [] then ''?'' @ qs else [])))))"

section \<open>The device fingerprint probe\<close>

text \<open>
  The probe's regular expressions are a literal followed by one captured group
  \<open>([class]+)\<close>, or a bare literal. A search tries every start position from the left;
  at a position the literal must match and the greedy group takes the longest run of class
  characters, which must not be empty. \<open>RegExp.$1\<close> is the group of the last search that
  matched; a search that fails leaves it as it was, so in the Safari line it still holds the
  Safari version when the search for \<open>Chrome\<close> has failed.
\<close>

definition is_digit :: "char \<Rightarrow> bool" where
  "is_digit c = (let n = (of_char c :: nat) in 48 \<le> n \<and> n \<le> 57)"

text \<open>The classes \<open>[\d.]\<close> and \<open>[\d_]\<close>.\<close>

definition digit_or_dot :: "char \<Rightarrow> bool" where
  "digit_or_dot c = (is_digit c \<or> c = CHR ''.'')"

definition digit_or_underscore :: "char \<Rightarrow> bool" where
  "digit_or_underscore c = (is_digit c \<or> c = CHR ''_'')"

definition match_at :: "string \<Rightarrow> (char \<Rightarrow> bool) \<Rightarrow> string \<Rightarrow> string option" where
  "match_at lit cls s =
     (if take (length lit) s = lit \<and> takeWhile cls (drop (length lit) s) \<noteq> []
      then Some (takeWhile cls (drop (length lit) s))
      else None)"

fun regex_capture :: "string \<Rightarrow> (char \<Rightarrow> bool) \<Rightarrow> string \<Rightarrow> string option" where
  "regex_capture lit cls [] = None"
| "regex_capture lit cls (c # cs) =
     (case match_at lit cls (c # cs) of
        Some v \<Rightarrow> Some v
      | None \<Rightarrow> regex_capture lit cls cs)"

fun regex_test :: "string \<Rightarrow> string \<Rightarrow> bool" where
  "regex_test lit [] = (lit = [])"
| "regex_test lit (c # cs) = (take (length lit) (c # cs) = lit \<or> regex_test lit cs)"

text \<open>\<open>s.replace(/_/g, '.')\<close>.\<close>

definition underscores_to_dots :: "string \<Rightarrow> string" where
  "underscores_to_dots s = map (\<lambda>c. if c = CHR ''_'' then CHR ''.'' else c) s"

definition detectOS :: "string \<Rightarrow> string" where
  "detectOS ua =
     (case regex_capture ''Windows NT '' digit_or_dot ua of
        Some v \<Rightarrow> ''Windows '' @ v
      | None \<Rightarrow>
     (case regex_capture ''Mac OS X '' digit_or_underscore ua of
        Some v \<Rightarrow> ''macOS '' @ underscores_to_dots v
      | None \<Rightarrow>
     (case regex_capture ''Android '' digit_or_dot ua of
        Some v \<Rightarrow> ''Android '' @ v
      | None \<Rightarrow>
     (case regex_capture ''iPhone OS '' digit_or_underscore ua of
        Some v \<Rightarrow> ''iOS '' @ underscores_to_dots v
      | None \<Rightarrow>
     (if regex_test ''Linux'' ua then ''Linux'' else ''Unknown'')))))"

definition detectBrowser :: "string \<Rightarrow> string" where
  "detectBrowser ua =
     (case regex_capture ''Edg/'' digit_or_dot ua of
        Some v \<Rightarrow> ''Edge '' @ v
      | None \<Rightarrow>
     (case regex_capture ''Chrome/'' digit_or_dot ua of
        Some v \<Rightarrow> ''Chrome '' @ v
      | None \<Rightarrow>
     (case regex_capture ''Firefox/'' digit_or_dot ua of
        Some v \<Rightarrow> ''Firefox '' @ v
      | None \<Rightarrow>
     (case regex_capture ''Safari/'' digit_or_dot ua of
        Some v \<Rightarrow>
          if \<not> regex_test ''Chrome'' ua then ''Safari '' @ v
          else if ua \<noteq> [] then ua else ''Unknown''
      | None \<Rightarrow> if ua \<noteq> [] then ua else ''Unknown''))))"

text \<open>
  The ambient signals the probe reads: \<open>navigator\<close> (absent outside a browser) and the
  time zone \<open>Intl\<close> resolves. \<open>fetch\<close> is the global the client calls; what it answers to
  a call is either what it throws or the response it resolves with.
\<close>

record Navigator =
  userAgent :: string
  language :: string

text \<open>The field \<open>locale\<close> is written \<open>locale'\<close> (the plain name is reserved here).\<close>

record DeviceInfo =
  platform :: string
  os_version :: string
  device_model :: string
  locale' :: string
  timezone :: string

text \<open>
  A response: its \<open>ok\<close> flag, its status, and what \<open>response.json()\<close> settles with (a
  rejection when the body is no JSON).
\<close>

record Response =
  ok :: bool
  status :: number
  json :: "thrown + jsval"

text \<open>
  The \<open>RequestInit\<close> fields the client uses. \<open>body\<close> holds the document of the JSON text.
\<close>

record RequestInit =
  http_method :: "string option"
  body :: "jsval option"
  headers :: "(string \<times> string) list option"

record Env =
  navigator :: "Navigator option"
  timeZone :: string
  fetch :: "string \<Rightarrow> RequestInit \<Rightarrow> thrown + Response"

definition detectDeviceInfo :: "Env \<Rightarrow> DeviceInfo" where
  "detectDeviceInfo env =
     (let ua = (case navigator env of None \<Rightarrow> [] | Some n \<Rightarrow> userAgent n)
      in \<lparr> platform = ''web'',
           os_version = detectOS ua,
           device_model = detectBrowser ua,
           locale' = (case navigator env of None \<Rightarrow> ''en'' | Some n \<Rightarrow> language n),
           timezone = timeZone env \<rparr>)"

section \<open>The client\<close>

text \<open>
  \<open>getToken\<close> is the application's asynchronous token provider; an operation calls it
  at most once, so the configuration holds what that call settles with.
\<close>

record AsqioConfig =
  baseUrl :: string
  tenantKey :: string
  getToken :: "thrown + string"
  appVersion :: "string option"

record AsqioClient =
  this_baseUrl :: string
  this_tenantKey :: string
  this_getToken :: "thrown + string"
  this_appVersion :: "string option"

text \<open>
  \<open>s.replace(/\/+$/, '')\<close>: the leftmost position from which only slashes follow up to
  the end of the string starts the match, and the match is removed.
\<close>

fun strip_trailing_slashes :: "string \<Rightarrow> string" where
  "strip_trailing_slashes [] = []"
| "strip_trailing_slashes (c # cs) =
     (if list_all (\<lambda>x. x = CHR ''/'') (c # cs) then [] else c # strip_trailing_slashes cs)"

definition new_AsqioClient :: "AsqioConfig \<Rightarrow> AsqioClient" where
  "new_AsqioClient config =
     \<lparr> this_baseUrl = strip_trailing_slashes (baseUrl config),
       this_tenantKey = tenantKey config,
       this_getToken = getToken config,
       this_appVersion = appVersion config \<rparr>"

text \<open>
  \<open>new AsqioError(message, code, statusCode)\<close>: \<open>super(message)\<close> converts the message
  to a string (an \<open>undefined\<close> message leaves the inherited empty one), and a conversion
  that throws makes the constructor throw; the code and the status are stored as given.
  \<open>Inl\<close> is what the constructor threw, \<open>Inr\<close> the new error.
\<close>

definition new_AsqioError :: "jsval \<Rightarrow> jsval \<Rightarrow> number \<Rightarrow> thrown + thrown" where
  "new_AsqioError message code statusCode =
     (if message = JUndefined then Inr (AsqioError [] code statusCode)
      else (case toString_js message of
              Inl e \<Rightarrow> Inl e
            | Inr m \<Rightarrow> Inr (AsqioError m code statusCode)))"

definition new_AsqioNetworkError :: "string \<Rightarrow> thrown \<Rightarrow> thrown" where
  "new_AsqioNetworkError message cause = AsqioNetworkError message cause"

subsection \<open>One request\<close>

text \<open>
  An operation's run is the list of its calls to the outside, in order, and what its
  promise settles with (\<open>Inl\<close> a rejection, \<open>Inr\<close> the value). The calls are the token
  provider's, \<open>fetch\<close> and \<open>response.json()\<close>. Reading the ambient signals for the probe
  is not a call.
\<close>

datatype event =
    TokenRequested
  | FetchCalled string RequestInit
  | JsonRead

type_synonym run = "event list \<times> (thrown + jsval)"

text \<open>\<open>v?.k\<close>, and \<open>v.k\<close> (a TypeError on \<open>undefined\<close> and \<open>null\<close>; the message is V8's).\<close>

definition optional_get :: "jsval \<Rightarrow> string \<Rightarrow> jsval" where
  "optional_get v k = (case v of JObj ps \<Rightarrow> obj_get ps k | _ \<Rightarrow> JUndefined)"

definition read_property :: "jsval \<Rightarrow> string \<Rightarrow> thrown + jsval" where
  "read_property v k =
     (if nullish v
      then Inl (OtherError ''TypeError''
                 (''Cannot read properties of '' @ (if v = JNull then ''null'' else ''undefined'')
                  @ '' (reading '' @ [CHR 0x27] @ k @ [CHR 0x27] @ '')''))
      else Inr (optional_get v k))"

definition request_headers :: "AsqioClient \<Rightarrow> string \<Rightarrow> RequestInit option \<Rightarrow> (string \<times> string) list" where
  "request_headers this token init =
     spread (case (case init of None \<Rightarrow> None | Some i \<Rightarrow> headers i) of None \<Rightarrow> [] | Some h \<Rightarrow> h)
       [(''Authorization'', ''Bearer '' @ token),
        (''X-Tenant-Key'', this_tenantKey this),
        (''Content-Type'', ''application/json''),
        (''Accept'', ''application/json'')]"

text \<open>\<open>{ ...init, headers }\<close>.\<close>

definition request_init :: "RequestInit option \<Rightarrow> (string \<times> string) list \<Rightarrow> RequestInit" where
  "request_init init hs =
     (case init of
        None \<Rightarrow> \<lparr> http_method = None, body = None, headers = Some hs \<rparr>
      | Some i \<Rightarrow> i \<lparr> headers := Some hs \<rparr>)"

text \<open>
  What \<open>request\<close> does with the response once \<open>fetch\<close> has resolved. In the rejection
  branch the arguments of \<open>new AsqioError\<close> are evaluated, then the constructor runs;
  what is thrown is the new error, or what the constructor threw.
\<close>

definition handle_response :: "Response \<Rightarrow> run" where
  "handle_response response =
     (if status response = 204 then ([], Inr JUndefined)
      else if \<not> ok response then
        (let errorBody = (case json response of Inl e \<Rightarrow> JUndefined | Inr b \<Rightarrow> b)
         in ([JsonRead],
             Inl (case new_AsqioError
                         (coalesce (optional_get errorBody ''error'')
                            (JStr (''Request failed with status ''
                                   @ show_int (sint (status response)))))
                         (coalesce (optional_get errorBody ''code'') (JStr ''INTERNAL_SERVER_ERROR''))
                         (status response) of
                    Inl e \<Rightarrow> e
                  | Inr err \<Rightarrow> err)))
      else ([JsonRead], json response))"

definition request :: "AsqioClient \<Rightarrow> Env \<Rightarrow> string \<Rightarrow> RequestInit option \<Rightarrow> run" where
  "request this env path init =
     (case this_getToken this of
        Inl e \<Rightarrow> ([TokenRequested], Inl (new_AsqioNetworkError ''Failed to retrieve auth token'' e))
      | Inr token \<Rightarrow>
          (let url = this_baseUrl this @ path;
               hs = request_headers this token init;
               arg = request_init init hs
           in case fetch env url arg of
                Inl e \<Rightarrow>
                  ([TokenRequested, FetchCalled url arg],
                   Inl (new_AsqioNetworkError ''Network request failed'' e))
              | Inr response \<Rightarrow>
                  ([TokenRequested, FetchCalled url arg] @ fst (handle_response response),
                   snd (handle_response response))))"

subsection \<open>The operations\<close>

text \<open>
  A method evaluates the arguments of its call to \<open>request\<close> first. Where that
  evaluation throws (\<open>String\<close> in \<open>buildQuery\<close>, \<open>JSON.stringify\<close> of a body), the method's
  promise rejects with what was thrown and \<open>request\<close> is never entered: the run has no
  calls.
\<close>

definition getTopics :: "AsqioClient \<Rightarrow> Env \<Rightarrow> run" where
  "getTopics this env =
     (case request this env ''/topics'' None of
        (evs, Inl e) \<Rightarrow> (evs, Inl e)
      | (evs, Inr res) \<Rightarrow> (evs, read_property res ''topics''))"

definition getTickets :: "AsqioClient \<Rightarrow> Env \<Rightarrow> jsobj option \<Rightarrow> run" where
  "getTickets this env params =
     (case buildQuery params of
        Inl e \<Rightarrow> ([], Inl e)
      | Inr query \<Rightarrow> request this env (''/tickets'' @ query) None)"

definition getTicket :: "AsqioClient \<Rightarrow> Env \<Rightarrow> string \<Rightarrow> run" where
  "getTicket this env ident = request this env (''/tickets/'' @ ident) None"

text \<open>The object literal of \<open>createTicket\<close>: the caller's properties, then the six keys.\<close>

definition createTicket_body :: "AsqioClient \<Rightarrow> Env \<Rightarrow> jsobj \<Rightarrow> jsobj" where
  "createTicket_body this env params =
     (let deviceInfo = detectDeviceInfo env;
          b = spread params [];
          b = obj_set ''platform''
                (coalesce (obj_get params ''platform'') (JStr (platform deviceInfo))) b;
          b = obj_set ''os_version''
                (coalesce (obj_get params ''os_version'') (JStr (os_version deviceInfo))) b;
          b = obj_set ''device_model''
                (coalesce (obj_get params ''device_model'') (JStr (device_model deviceInfo))) b;
          b = obj_set ''locale''
                (coalesce (obj_get params ''locale'') (JStr (locale' deviceInfo))) b;
          b = obj_set ''timezone''
                (coalesce (obj_get params ''timezone'') (JStr (timezone deviceInfo))) b;
          b = obj_set ''app_version''
                (coalesce (obj_get params ''app_version'')
                   (case this_appVersion this of None \<Rightarrow> JUndefined | Some v \<Rightarrow> JStr v)) b
      in b)"

definition createTicket :: "AsqioClient \<Rightarrow> Env \<Rightarrow> jsobj \<Rightarrow> run" where
  "createTicket this env params =
     (case json_of (JObj (createTicket_body this env params)) of
        Inl e \<Rightarrow> ([], Inl e)
      | Inr doc \<Rightarrow>
          request this env ''/tickets''
            (Some \<lparr> http_method = Some ''POST'', body = Some doc, headers = None \<rparr>))"

definition getMessages :: "AsqioClient \<Rightarrow> Env \<Rightarrow> string \<Rightarrow> jsobj option \<Rightarrow> run" where
  "getMessages this env ticketId params =
     (case buildQuery params of
        Inl e \<Rightarrow> ([], Inl e)
      | Inr query \<Rightarrow> request this env (''/tickets/'' @ ticketId @ ''/messages'' @ query) None)"

definition sendMessage :: "AsqioClient \<Rightarrow> Env \<Rightarrow> string \<Rightarrow> jsobj \<Rightarrow> run" where
  "sendMessage this env ticketId params =
     (case json_of (JObj [(''message'', JObj [(''body'', obj_get params ''body'')])]) of
        Inl e \<Rightarrow> ([], Inl e)
      | Inr doc \<Rightarrow>
          request this env (''/tickets/'' @ ticketId @ ''/messages'')
            (Some \<lparr> http_method = Some ''POST'', body = Some doc, headers = None \<rparr>))"

definition markAsRead :: "AsqioClient \<Rightarrow> Env \<Rightarrow> string \<Rightarrow> run" where
  "markAsRead this env ticketId =
     (case request this env (''/tickets/'' @ ticketId @ ''/read'')
             (Some \<lparr> http_method = Some ''POST'', body = None, headers = None \<rparr>) of
        (evs, Inl e) \<Rightarrow> (evs, Inl e)
      | (evs, Inr res) \<Rightarrow> (evs, Inr JUndefined))"

definition getUnreadCount :: "AsqioClient \<Rightarrow> Env \<Rightarrow> run" where
  "getUnreadCount this env =
     (case request this env ''/unread_count'' None of
        (evs, Inl e) \<Rightarrow> (evs, Inl e)
      | (evs, Inr res) \<Rightarrow> (evs, read_property res ''unread_count''))"

definition registerDevice :: "AsqioClient \<Rightarrow> Env \<Rightarrow> jsobj \<Rightarrow> run" where
  "registerDevice this env params =
     (case json_of (JObj [(''device'', JObj params)]) of
        Inl e \<Rightarrow> ([], Inl e)
      | Inr doc \<Rightarrow>
          request this env ''/devices''
            (Some \<lparr> http_method = Some ''POST'', body = Some doc, headers = None \<rparr>))"

definition updateDevice :: "AsqioClient \<Rightarrow> Env \<Rightarrow> string \<Rightarrow> jsobj \<Rightarrow> run" where
  "updateDevice this env ident params =
     (case json_of (JObj [(''device'', JObj params)]) of
        Inl e \<Rightarrow> ([], Inl e)
      | Inr doc \<Rightarrow>
          request this env (''/devices/'' @ ident)
            (Some \<lparr> http_method = Some ''PUT'', body = Some doc, headers = None \<rparr>))"

definition deleteDevice :: "AsqioClient \<Rightarrow> Env \<Rightarrow> string \<Rightarrow> run" where
  "deleteDevice this env ident =
     (case request this env (''/devices/'' @ ident)
             (Some \<lparr> http_method = Some ''DELETE'', body = None, headers = None \<rparr>) of
        (evs, Inl e) \<Rightarrow> (evs, Inl e)
      | (evs, Inr res) \<Rightarrow> (evs, Inr JUndefined))"

text \<open>The public methods of the client, to speak of every operation at once.\<close>

datatype operation =
    GetTopics
  | GetTickets "jsobj option"
  | GetTicket string
  | CreateTicket jsobj
  | GetMessages string "jsobj option"
  | SendMessage string jsobj
  | MarkAsRead string
  | GetUnreadCount
  | RegisterDevice jsobj
  | UpdateDevice string jsobj
  | DeleteDevice string

fun invoke :: "AsqioClient \<Rightarrow> Env \<Rightarrow> operation \<Rightarrow> run" where
  "invoke this env GetTopics = getTopics this env"
| "invoke this env (GetTickets params) = getTickets this env params"
| "invoke this env (GetTicket ident) = getTicket this env ident"
| "invoke this env (CreateTicket params) = createTicket this env params"
| "invoke this env (GetMessages ticketId params) = getMessages this env ticketId params"
| "invoke this env (SendMessage ticketId params) = sendMessage this env ticketId params"
| "invoke this env (MarkAsRead ticketId) = markAsRead this env ticketId"
| "invoke this env GetUnreadCount = getUnreadCount this env"
| "invoke this env (RegisterDevice params) = registerDevice this env params"
| "invoke this env (UpdateDevice ident params) = updateDevice this env ident params"
| "invoke this env (DeleteDevice ident) = deleteDevice this env ident"

section \<open>The topics hook\<close>

text \<open>
  \<open>useTopics\<close> holds three state cells. \<open>fetchTopics\<close> runs in two stretches, separated
  by \<open>await client.getTopics()\<close>: the first when it is called (on mount, or as
  \<open>refetch\<close>), the second when the client's promise settles. A stretch runs to its end
  without interruption and is the list of the setter calls it makes; between the two
  stretches of one request the stretches of other requests can run. The history of a hook
  is the list of the stretches that have run, and its state is the initial state with their
  setter calls applied in order.
\<close>

record TopicsState =
  topics :: jsval
  loading :: bool
  error :: "thrown option"

definition useTopics_initial :: TopicsState where
  "useTopics_initial = \<lparr> topics = JArr [], loading = True, error = None \<rparr>"

datatype setter =
    SetLoading bool
  | SetError "thrown option"
  | SetTopics jsval

fun apply_setter :: "TopicsState \<Rightarrow> setter \<Rightarrow> TopicsState" where
  "apply_setter st (SetLoading b) = st \<lparr> loading := b \<rparr>"
| "apply_setter st (SetError e) = st \<lparr> error := e \<rparr>"
| "apply_setter st (SetTopics t) = st \<lparr> topics := t \<rparr>"

text \<open>
  \<open>String(e)\<close> of a caught value: for an \<open>Error\<close> instance its name, a colon and its
  message (or the one of the two that is not empty); for any other value its conversion to
  a string, which can throw. And \<open>new Error(message)\<close> for a string.
\<close>

definition error_toString :: "string \<Rightarrow> string \<Rightarrow> string" where
  "error_toString name message =
     (if name = [] then message else if message = [] then name else name @ '': '' @ message)"

fun String_thrown :: "thrown \<Rightarrow> thrown + string" where
  "String_thrown (AsqioError m c s) = Inr (error_toString ''AsqioError'' m)"
| "String_thrown (AsqioNetworkError m c) = Inr (error_toString ''AsqioNetworkError'' m)"
| "String_thrown (OtherError n m) = Inr (error_toString n m)"
| "String_thrown (NonError v) = toString_js v"

definition new_Error :: "string \<Rightarrow> thrown" where
  "new_Error message = OtherError ''Error'' message"

text \<open>The first stretch: \<open>setLoading(true); setError(null)\<close>, up to the \<open>await\<close>.\<close>

definition fetchTopics_called :: "setter list" where
  "fetchTopics_called = [SetLoading True, SetError None]"

text \<open>
  The second stretch, given what \<open>client.getTopics()\<close> settled with: its setter calls,
  and what the promise of \<open>fetchTopics\<close> settles with. When \<open>String(e)\<close> throws inside the
  \<open>catch\<close> block, \<open>setError\<close> is not reached, the \<open>finally\<close> block still runs, and the
  promise rejects with what was thrown.
\<close>

definition fetchTopics_settled :: "thrown + jsval \<Rightarrow> setter list \<times> (thrown + jsval)" where
  "fetchTopics_settled settled =
     (case settled of
        Inr result \<Rightarrow> ([SetTopics result, SetLoading False], Inr JUndefined)
      | Inl e \<Rightarrow>
          (if instanceof_Error e then ([SetError (Some e), SetLoading False], Inr JUndefined)
           else (case String_thrown e of
                   Inl t \<Rightarrow> ([SetLoading False], Inl t)
                 | Inr s \<Rightarrow> ([SetError (Some (new_Error s)), SetLoading False], Inr JUndefined))))"

datatype stretch =
    Called
  | Settled "thrown + jsval"

fun setter_calls :: "stretch \<Rightarrow> setter list" where
  "setter_calls Called = fetchTopics_called"
| "setter_calls (Settled settled) = fst (fetchTopics_settled settled)"

definition after_stretch :: "TopicsState \<Rightarrow> stretch \<Rightarrow> TopicsState" where
  "after_stretch st x = foldl apply_setter st (setter_calls x)"

definition after_history :: "TopicsState \<Rightarrow> stretch list \<Rightarrow> TopicsState" where
  "after_history st xs = foldl after_stretch st xs"

section \<open>Observations on a run\<close>

text \<open>
  Each operation evaluates the arguments of one call of \<open>request\<close>, makes the call, and
  takes a step on the value it resolves with: \<open>op_args\<close> is the path and the init of the
  call (or what their evaluation throws), \<open>op_result\<close> the step.
\<close>

fun op_args :: "AsqioClient \<Rightarrow> Env \<Rightarrow> operation \<Rightarrow> thrown + (string \<times> RequestInit option)" where
  "op_args this env GetTopics = Inr (''/topics'', None)"
| "op_args this env (GetTickets params) =
     (case buildQuery params of
        Inl e \<Rightarrow> Inl e
      | Inr query \<Rightarrow> Inr (''/tickets'' @ query, None))"
| "op_args this env (GetTicket ident) = Inr (''/tickets/'' @ ident, None)"
| "op_args this env (CreateTicket params) =
     (case json_of (JObj (createTicket_body this env params)) of
        Inl e \<Rightarrow> Inl e
      | Inr doc \<Rightarrow>
          Inr (''/tickets'',
               Some \<lparr> http_method = Some ''POST'', body = Some doc, headers = None \<rparr>))"
| "op_args this env (GetMessages ticketId params) =
     (case buildQuery params of
        Inl e \<Rightarrow> Inl e
      | Inr query \<Rightarrow> Inr (''/tickets/'' @ ticketId @ ''/messages'' @ query, None))"
| "op_args this env (SendMessage ticketId params) =
     (case json_of (JObj [(''message'', JObj [(''body'', obj_get params ''body'')])]) of
        Inl e \<Rightarrow> Inl e
      | Inr doc \<Rightarrow>
          Inr (''/tickets/'' @ ticketId @ ''/messages'',
               Some \<lparr> http_method = Some ''POST'', body = Some doc, headers = None \<rparr>))"
| "op_args this env (MarkAsRead ticketId) =
     Inr (''/tickets/'' @ ticketId @ ''/read'',
          Some \<lparr> http_method = Some ''POST'', body = None, headers = None \<rparr>)"
| "op_args this env GetUnreadCount = Inr (''/unread_count'', None)"
| "op_args this env (RegisterDevice params) =
     (case json_of (JObj [(''device'', JObj params)]) of
        Inl e \<Rightarrow> Inl e
      | Inr doc \<Rightarrow>
          Inr (''/devices'',
               Some \<lparr> http_method = Some ''POST'', body = Some doc, headers = None \<rparr>))"
| "op_args this env (UpdateDevice ident params) =
     (case json_of (JObj [(''device'', JObj params)]) of
        Inl e \<Rightarrow> Inl e
      | Inr doc \<Rightarrow>
          Inr (''/devices/'' @ ident,
               Some \<lparr> http_method = Some ''PUT'', body = Some doc, headers = None \<rparr>))"
| "op_args this env (DeleteDevice ident) =
     Inr (''/devices/'' @ ident,
          Some \<lparr> http_method = Some ''DELETE'', body = None, headers = None \<rparr>)"

fun op_result :: "operation \<Rightarrow> jsval \<Rightarrow> thrown + jsval" where
  "op_result GetTopics res = read_property res ''topics''"
| "op_result GetUnreadCount res = read_property res ''unread_count''"
| "op_result (MarkAsRead ticketId) res = Inr JUndefined"
| "op_result (DeleteDevice ident) res = Inr JUndefined"
| "op_result other res = Inr res"

text \<open>
  The call to \<open>fetch\<close> a run records (an operation makes at most one), what \<open>fetch\<close>
  answered to it, and a field of the JSON document it carried as body.
\<close>

fun fetch_call :: "event list \<Rightarrow> (string \<times> RequestInit) option" where
  "fetch_call [] = None"
| "fetch_call (FetchCalled url arg # evs) = Some (url, arg)"
| "fetch_call (ev # evs) = fetch_call evs"

definition fetch_answer :: "Env \<Rightarrow> run \<Rightarrow> (thrown + Response) option" where
  "fetch_answer env r =
     (case fetch_call (fst r) of
        None \<Rightarrow> None
      | Some (url, arg) \<Rightarrow> Some (fetch env url arg))"

definition sent_field :: "run \<Rightarrow> string \<Rightarrow> jsval" where
  "sent_field r k =
     (case fetch_call (fst r) of
        None \<Rightarrow> JUndefined
      | Some (url, arg) \<Rightarrow> (case body arg of None \<Rightarrow> JUndefined | Some d \<Rightarrow> optional_get d k))"

text \<open>
  The keys \<open>createTicket\<close> fills in, and the value it falls back to for each: the probe's
  output for the five device fields, the configured application version for the sixth
  (\<open>undefined\<close>, which leaves the field out of the body, when none is configured).
\<close>

definition autofill_keys :: "string list" where
  "autofill_keys =
     [''platform'', ''os_version'', ''device_model'', ''locale'', ''timezone'', ''app_version'']"

definition autofill_value :: "AsqioClient \<Rightarrow> Env \<Rightarrow> string \<Rightarrow> jsval" where
  "autofill_value this env k =
     (if k = ''platform'' then JStr (platform (detectDeviceInfo env))
      else if k = ''os_version'' then JStr (os_version (detectDeviceInfo env))
      else if k = ''device_model'' then JStr (device_model (detectDeviceInfo env))
      else if k = ''locale'' then JStr (locale' (detectDeviceInfo env))
      else if k = ''timezone'' then JStr (timezone (detectDeviceInfo env))
      else if k = ''app_version''
      then (case this_appVersion this of None \<Rightarrow> JUndefined | Some v \<Rightarrow> JStr v)
      else JUndefined)"

text \<open>
  What it means for a user-agent string to hold a browser signature (the literal followed
  by at least one version character) or a plain substring, said without the search.
\<close>

definition has_signature :: "string \<Rightarrow> string \<Rightarrow> bool" where
  "has_signature lit ua = (\<exists>pre c post. ua = pre @ lit @ c # post \<and> digit_or_dot c)"

definition has_substring :: "string \<Rightarrow> string \<Rightarrow> bool" where
  "has_substring lit ua = (\<exists>pre post. ua = pre @ lit @ post)"

text \<open>The characters of an integer in decimal: digits and the minus sign.\<close>

definition plain_char :: "char \<Rightarrow> bool" where
  "plain_char c = (is_digit c \<or> c = CHR ''-'')"

text \<open>
  A field of an error response's body, when the body parses as JSON, is an object and has
  the field with a value other than \<open>null\<close>.
\<close>

definition body_field :: "Response \<Rightarrow> string \<Rightarrow> jsval option" where
  "body_field r k =
     (case json r of
        Inl e \<Rightarrow> None
      | Inr b \<Rightarrow>
          (case b of
             JObj ps \<Rightarrow> (if nullish (obj_get ps k) then None else Some (obj_get ps k))
           | _ \<Rightarrow> None))"

section \<open>Facts about one request\<close>

lemmas operation_defs =
  getTopics_def getTickets_def getTicket_def createTicket_def getMessages_def sendMessage_def
  markAsRead_def getUnreadCount_def registerDevice_def updateDevice_def deleteDevice_def

lemma request_token_rejected:
  "this_getToken this = Inl e \<Longrightarrow>
   request this env path init =
     ([TokenRequested], Inl (AsqioNetworkError ''Failed to retrieve auth token'' e))"
  by (simp add: request_def new_AsqioNetworkError_def)

lemma request_token_resolved:
  "this_getToken this = Inr t \<Longrightarrow>
   request this env path init =
     (case fetch env (this_baseUrl this @ path) (request_init init (request_headers this t init)) of
        Inl e \<Rightarrow>
          ([TokenRequested,
            FetchCalled (this_baseUrl this @ path) (request_init init (request_headers this t init))],
           Inl (AsqioNetworkError ''Network request failed'' e))
      | Inr r \<Rightarrow>
          (TokenRequested #
           FetchCalled (this_baseUrl this @ path) (request_init init (request_headers this t init)) #
           fst (handle_response r),
           snd (handle_response r)))"
  by (simp add: request_def new_AsqioNetworkError_def Let_def split: sum.splits)

lemma request_events_resolved:
  "this_getToken this = Inr t \<Longrightarrow>
   \<exists>more. fst (request this env path init) =
     TokenRequested #
     FetchCalled (this_baseUrl this @ path) (request_init init (request_headers this t init)) # more"
  by (simp add: request_token_resolved split: sum.splits)

lemma invoke_request:
  "invoke this env op =
     (case op_args this env op of
        Inl e \<Rightarrow> ([], Inl e)
      | Inr a \<Rightarrow>
          (case request this env (fst a) (snd a) of
             (evs, Inl e) \<Rightarrow> (evs, Inl e)
           | (evs, Inr v) \<Rightarrow> (evs, op_result op v)))"
  by (cases op) (auto simp: operation_defs simp del: json_of.simps split: prod.splits sum.splits)

lemma invoke_not_prepared:
  "op_args this env op = Inl e \<Longrightarrow> invoke this env op = ([], Inl e)"
  by (simp add: invoke_request)

lemma fst_invoke_prepared:
  "op_args this env op = Inr (path, init) \<Longrightarrow>
   fst (invoke this env op) = fst (request this env path init)"
  by (simp add: invoke_request split: prod.splits sum.splits)

lemma fetch_answer_invoke:
  assumes "fetch_answer env (invoke this env op) = Some a"
  shows "\<exists>t path init. this_getToken this = Inr t \<and> op_args this env op = Inr (path, init) \<and>
             fetch env (this_baseUrl this @ path)
               (request_init init (request_headers this t init)) = a"
proof (cases "op_args this env op")
  case (Inl e)
  with assms show ?thesis by (simp add: fetch_answer_def invoke_not_prepared)
next
  case (Inr a)
  obtain path init where a: "a = (path, init)" by (cases a)
  note prepared = Inr [unfolded a]
  show ?thesis
  proof (cases "this_getToken this")
    case (Inl e)
    with assms show ?thesis
      by (simp add: fetch_answer_def fst_invoke_prepared [OF prepared] request_token_rejected)
  next
    case (Inr t)
    with assms prepared show ?thesis
      by (simp add: fetch_answer_def fst_invoke_prepared [OF prepared] request_token_resolved
               split: sum.splits)
  qed
qed

lemma invoke_fetch_rejected:
  assumes "fetch_answer env (invoke this env op) = Some (Inl e)"
  shows "\<exists>url arg. invoke this env op =
           ([TokenRequested, FetchCalled url arg],
            Inl (AsqioNetworkError ''Network request failed'' e))"
proof -
  from fetch_answer_invoke [OF assms] obtain t path init where
    "this_getToken this = Inr t" "op_args this env op = Inr (path, init)"
    "fetch env (this_baseUrl this @ path)
       (request_init init (request_headers this t init)) = Inl e"
    by blast
  then show ?thesis
    by (simp add: invoke_request request_token_resolved)
qed

lemma invoke_fetch_resolved:
  assumes "fetch_answer env (invoke this env op) = Some (Inr r)"
  shows "\<exists>url arg. invoke this env op =
           (TokenRequested # FetchCalled url arg # fst (handle_response r),
            (case snd (handle_response r) of Inl e \<Rightarrow> Inl e | Inr v \<Rightarrow> op_result op v))"
proof -
  from fetch_answer_invoke [OF assms] obtain t path init where
    "this_getToken this = Inr t" "op_args this env op = Inr (path, init)"
    "fetch env (this_baseUrl this @ path)
       (request_init init (request_headers this t init)) = Inr r"
    by blast
  then show ?thesis
    by (simp add: invoke_request request_token_resolved split: sum.splits)
qed

lemma coalesce_body_field:
  "coalesce (optional_get (case json r of Inl e \<Rightarrow> JUndefined | Inr b \<Rightarrow> b) k) d =
     (case body_field r k of Some v \<Rightarrow> v | None \<Rightarrow> d)"
  by (simp add: coalesce_def optional_get_def body_field_def nullish_def
           split: sum.splits jsval.splits)

lemma body_field_not_undefined: "body_field r k = Some v \<Longrightarrow> v \<noteq> JUndefined"
  by (auto simp: body_field_def nullish_def split: sum.splits jsval.splits if_splits)

lemma handle_response_rejection:
  assumes "\<not> ok r" "status r \<noteq> 204"
  shows "handle_response r =
     ([JsonRead],
      Inl (case body_field r ''error'' of
             None \<Rightarrow>
               AsqioError (''Request failed with status '' @ show_int (sint (status r)))
                 (case body_field r ''code'' of
                    Some c \<Rightarrow> c
                  | None \<Rightarrow> JStr ''INTERNAL_SERVER_ERROR'')
                 (status r)
           | Some v \<Rightarrow>
               (case toString_js v of
                  Inl e \<Rightarrow> e
                | Inr m \<Rightarrow>
                    AsqioError m
                      (case body_field r ''code'' of
                         Some c \<Rightarrow> c
                       | None \<Rightarrow> JStr ''INTERNAL_SERVER_ERROR'')
                      (status r))))"
proof (cases "body_field r ''error''")
  case None
  with assms show ?thesis
    by (simp add: handle_response_def Let_def coalesce_body_field new_AsqioError_def)
next
  case (Some v)
  then have "v \<noteq> JUndefined" by (rule body_field_not_undefined)
  with Some assms show ?thesis
    by (simp add: handle_response_def Let_def coalesce_body_field new_AsqioError_def
             split: sum.splits)
qed

lemma handle_response_no_content:
  "status r = 204 \<Longrightarrow> handle_response r = ([], Inr JUndefined)"
  by (simp add: handle_response_def)

text \<open>The definitions a run on concrete inputs unfolds.\<close>

lemmas run_defs =
  operation_defs request_def request_headers_def request_init_def handle_response_def
  spread_def new_AsqioError_def new_AsqioNetworkError_def coalesce_def optional_get_def
  obj_get_def nullish_def read_property_def fetch_answer_def sent_field_def body_field_def
  buildQuery_def search_toString_def Let_def

section \<open>The token comes first\<close>

text \<open>
  Claim C1, as stated, fails for the operations that evaluate arguments before they enter
  \<open>request\<close>: \<open>createTicket\<close> calls \<open>JSON.stringify(body)\<close> first, and for a context that
  holds a BigInt that call throws. The operation then rejects with the TypeError, not with
  a transport failure, and the token provider (here one that would reject) is never asked.
\<close>

theorem createTicket_throws_before_token:
  "invoke
     \<lparr> this_baseUrl = ''https://api.example.com/api/v1'', this_tenantKey = ''test-tenant'',
       this_getToken = Inl (OtherError ''Error'' ''Token expired''), this_appVersion = None \<rparr>
     \<lparr> navigator = None, timeZone = ''UTC'',
       fetch = (\<lambda>url arg. Inr \<lparr> ok = True, status = 200, json = Inr JNull \<rparr>) \<rparr>
     (CreateTicket [(''message'', JStr ''Hello''), (''context'', JObj [(''order'', JBigInt 10)])])
   = ([], Inl (OtherError ''TypeError'' ''Do not know how to serialize a BigInt''))"
  by (simp add: createTicket_def createTicket_body_def spread_def coalesce_def obj_get_def
        nullish_def Let_def)

text \<open>
  Claim C1, amended. An operation asks nothing of the outside before the token. Either the
  evaluation of its request's arguments throws (\<open>String\<close> of a pagination value,
  \<open>JSON.stringify\<close> of a body): then it rejects with what was thrown and makes no call at
  all. Or its first call is the token provider's; when the provider rejects with \<open>e\<close>, the
  operation rejects with the transport failure
  \<open>AsqioNetworkError('Failed to retrieve auth token', e)\<close> and that call is its only one.
  In no case is \<open>fetch\<close> called when the provider rejects.
\<close>

theorem token_rejection_stops_operation:
  "(case op_args this env op of
      Inl thrown_first \<Rightarrow> invoke this env op = ([], Inl thrown_first)
    | Inr prepared \<Rightarrow>
        (\<exists>rest. fst (invoke this env op) = TokenRequested # rest) \<and>
        (\<forall>e. this_getToken this = Inl e \<longrightarrow>
           invoke this env op =
             ([TokenRequested], Inl (AsqioNetworkError ''Failed to retrieve auth token'' e)))) \<and>
   (\<forall>e. this_getToken this = Inl e \<longrightarrow> fetch_call (fst (invoke this env op)) = None)"
proof (cases "op_args this env op")
  case (Inl thrown_first)
  then show ?thesis by (simp add: invoke_not_prepared)
next
  case (Inr prepared)
  obtain path init where a: "prepared = (path, init)" by (cases prepared)
  note args = Inr [unfolded a]
  have first: "\<exists>rest. fst (invoke this env op) = TokenRequested # rest"
  proof (cases "this_getToken this")
    case (Inl e)
    then show ?thesis by (simp add: fst_invoke_prepared [OF args] request_token_rejected)
  next
    case (Inr t)
    then show ?thesis
      by (simp add: fst_invoke_prepared [OF args] request_token_resolved split: sum.splits)
  qed
  have rejected: "invoke this env op =
      ([TokenRequested], Inl (AsqioNetworkError ''Failed to retrieve auth token'' e))"
    if "this_getToken this = Inl e" for e
    using that args by (simp add: invoke_request request_token_rejected)
  from first rejected Inr show ?thesis by auto
qed

theorem token_rejection_stops_operation_witness:
  "invoke
     \<lparr> this_baseUrl = ''https://api.example.com/api/v1'', this_tenantKey = ''test-tenant'',
       this_getToken = Inl (OtherError ''Error'' ''Token expired''), this_appVersion = None \<rparr>
     \<lparr> navigator = None, timeZone = ''UTC'',
       fetch = (\<lambda>url arg. Inr \<lparr> ok = True, status = 200, json = Inr JNull \<rparr>) \<rparr>
     (GetTickets None)
   = ([TokenRequested],
      Inl (AsqioNetworkError ''Failed to retrieve auth token'' (OtherError ''Error'' ''Token expired'')))"
  using token_rejection_stops_operation
    [of "\<lparr> this_baseUrl = ''https://api.example.com/api/v1'', this_tenantKey = ''test-tenant'',
       this_getToken = Inl (OtherError ''Error'' ''Token expired''), this_appVersion = None \<rparr>"
        "\<lparr> navigator = None, timeZone = ''UTC'',
       fetch = (\<lambda>url arg. Inr \<lparr> ok = True, status = 200, json = Inr JNull \<rparr>) \<rparr>"
        "GetTickets None"]
  by (simp add: buildQuery_def)

section \<open>A rejected response\<close>

text \<open>
  Claim C2, as stated, fails for an error body whose \<open>error\<close> field has no string form.
  The \<open>Error\<close> constructor converts the message to a string; for the body
  \<open>{"error": {"toString": 1}}\<close> that conversion throws, and the operation rejects with
  the TypeError instead of an \<open>AsqioError\<close>.
\<close>

theorem rejected_response_can_throw_TypeError:
  "snd (invoke
     \<lparr> this_baseUrl = ''https://api.example.com/api/v1'', this_tenantKey = ''test-tenant'',
       this_getToken = Inr ''test-token'', this_appVersion = None \<rparr>
     \<lparr> navigator = None, timeZone = ''UTC'',
       fetch = (\<lambda>url arg. Inr \<lparr> ok = False, status = 500, json = Inr (JObj [(''error'', JObj [(''toString'', JNum 1)])]) \<rparr>) \<rparr>
     GetTopics)
   = Inl (OtherError ''TypeError'' ''Cannot convert object to primitive value'')
   \<and> \<not> instanceof_AsqioError (OtherError ''TypeError'' ''Cannot convert object to primitive value'')"
  by (simp add: run_defs)

text \<open>
  Claim C2, amended. When the response \<open>fetch\<close> resolved with is not ok (and its status
  is not 204), the operation rejects with an \<open>AsqioError\<close> whose statusCode is the
  status, whose code is the body's \<open>code\<close> field when the body parses as JSON and has one,
  else \<open>INTERNAL_SERVER_ERROR\<close>, and whose message is the string form of the body's
  \<open>error\<close> field when it has one (the field itself when it is a string), else
  \<open>Request failed with status\<close> and the status in decimal. The one exception: when the
  \<open>error\<close> field has no string form, the operation rejects with the TypeError of the
  conversion. A body that does not parse (\<open>json r = Inl e\<close>) has no fields, so what
  \<open>response.json()\<close> rejected with never reaches the caller.
\<close>

theorem rejected_response_becomes_AsqioError:
  assumes "fetch_answer env (invoke this env op) = Some (Inr r)"
    and "\<not> ok r" and "status r \<noteq> 204"
  shows "snd (invoke this env op) =
      Inl (case body_field r ''error'' of
             None \<Rightarrow>
               AsqioError (''Request failed with status '' @ show_int (sint (status r)))
                 (case body_field r ''code'' of
                    Some c \<Rightarrow> c
                  | None \<Rightarrow> JStr ''INTERNAL_SERVER_ERROR'')
                 (status r)
           | Some v \<Rightarrow>
               (case toString_js v of
                  Inl e \<Rightarrow> e
                | Inr m \<Rightarrow>
                    AsqioError m
                      (case body_field r ''code'' of
                         Some c \<Rightarrow> c
                       | None \<Rightarrow> JStr ''INTERNAL_SERVER_ERROR'')
                      (status r)))
     \<and> toString_js (JStr s) = Inr s"
proof -
  from invoke_fetch_resolved [OF assms(1)] obtain url arg where
    "invoke this env op =
           (TokenRequested # FetchCalled url arg # fst (handle_response r),
            (case snd (handle_response r) of Inl e \<Rightarrow> Inl e | Inr v \<Rightarrow> op_result op v))"
    by blast
  then show ?thesis
    by (simp add: handle_response_rejection [OF assms(2,3)])
qed

theorem rejected_response_becomes_AsqioError_witness:
  "snd (invoke
     \<lparr> this_baseUrl = ''https://api.example.com/api/v1'', this_tenantKey = ''test-tenant'',
       this_getToken = Inr ''test-token'', this_appVersion = None \<rparr>
     \<lparr> navigator = None, timeZone = ''UTC'',
       fetch = (\<lambda>url arg. Inr \<lparr> ok = False, status = 422, json = Inr (JObj [(''error'', JStr ''Validation failed''),
                                    (''code'', JStr ''VALIDATION_ERROR'')]) \<rparr>) \<rparr>
     (GetTickets None))
   = Inl (AsqioError ''Validation failed'' (JStr ''VALIDATION_ERROR'') 422)
   \<and>
   snd (invoke
     \<lparr> this_baseUrl = ''https://api.example.com/api/v1'', this_tenantKey = ''test-tenant'',
       this_getToken = Inr ''test-token'', this_appVersion = None \<rparr>
     \<lparr> navigator = None, timeZone = ''UTC'',
       fetch = (\<lambda>url arg. Inr \<lparr> ok = False, status = 500, json = Inl (OtherError ''SyntaxError'' ''Unexpected token'') \<rparr>) \<rparr>
     (GetTickets None))
   = Inl (AsqioError ''Request failed with status 500'' (JStr ''INTERNAL_SERVER_ERROR'') 500)"
  using
    rejected_response_becomes_AsqioError
      [of "\<lparr> navigator = None, timeZone = ''UTC'',
       fetch = (\<lambda>url arg. Inr \<lparr> ok = False, status = 422, json = Inr (JObj [(''error'', JStr ''Validation failed''),
                                    (''code'', JStr ''VALIDATION_ERROR'')]) \<rparr>) \<rparr>"
       "\<lparr> this_baseUrl = ''https://api.example.com/api/v1'', this_tenantKey = ''test-tenant'',
       this_getToken = Inr ''test-token'', this_appVersion = None \<rparr>"
       "GetTickets None"
       "\<lparr> ok = False, status = 422, json = Inr (JObj [(''error'', JStr ''Validation failed''),
                                    (''code'', JStr ''VALIDATION_ERROR'')]) \<rparr>"]
    rejected_response_becomes_AsqioError
      [of "\<lparr> navigator = None, timeZone = ''UTC'',
       fetch = (\<lambda>url arg. Inr \<lparr> ok = False, status = 500, json = Inl (OtherError ''SyntaxError'' ''Unexpected token'') \<rparr>) \<rparr>"
       "\<lparr> this_baseUrl = ''https://api.example.com/api/v1'', this_tenantKey = ''test-tenant'',
       this_getToken = Inr ''test-token'', this_appVersion = None \<rparr>"
       "GetTickets None"
       "\<lparr> ok = False, status = 500, json = Inl (OtherError ''SyntaxError'' ''Unexpected token'') \<rparr>"]
  by (simp add: run_defs show_int_def show_nat.simps digit_char_def)

section \<open>A failing transport\<close>

text \<open>
  Claim C3, as stated, fails in its last part: the cause of a transport failure is whatever
  was caught, and nothing in \<open>request\<close> looks at it. A \<open>fetch\<close> that throws an
  \<open>AsqioError\<close> gives an \<open>AsqioNetworkError\<close> whose cause is that \<open>AsqioError\<close>.
\<close>

theorem fetch_failure_cause_can_be_AsqioError:
  "snd (invoke
     \<lparr> this_baseUrl = ''https://api.example.com/api/v1'', this_tenantKey = ''test-tenant'',
       this_getToken = Inr ''test-token'', this_appVersion = None \<rparr>
     \<lparr> navigator = None, timeZone = ''UTC'', fetch = (\<lambda>url arg. Inl (AsqioError ''Too many requests'' (JStr ''RATE_LIMITED'') 429)) \<rparr>
     GetTopics)
   = Inl (AsqioNetworkError ''Network request failed''
            (AsqioError ''Too many requests'' (JStr ''RATE_LIMITED'') 429))
   \<and> instanceof_AsqioError (AsqioError ''Too many requests'' (JStr ''RATE_LIMITED'') 429)"
  by (simp add: run_defs)

text \<open>
  Claim C3, amended. When the call to \<open>fetch\<close> throws \<open>e\<close>, the operation rejects with
  \<open>AsqioNetworkError('Network request failed', e)\<close>: a transport failure, never a
  server-rejection failure, whose cause is \<open>e\<close> itself, whatever \<open>e\<close> is. The token request
  and the call to \<open>fetch\<close> are the only calls it made.
\<close>

theorem fetch_failure_becomes_AsqioNetworkError:
  assumes "fetch_answer env (invoke this env op) = Some (Inl e)"
  shows "(\<exists>url arg. fst (invoke this env op) = [TokenRequested, FetchCalled url arg]) \<and>
         snd (invoke this env op) = Inl (AsqioNetworkError ''Network request failed'' e) \<and>
         instanceof_AsqioNetworkError (AsqioNetworkError ''Network request failed'' e) \<and>
         \<not> instanceof_AsqioError (AsqioNetworkError ''Network request failed'' e)"
proof -
  from invoke_fetch_rejected [OF assms] obtain url arg where
    "invoke this env op =
           ([TokenRequested, FetchCalled url arg],
            Inl (AsqioNetworkError ''Network request failed'' e))"
    by blast
  then show ?thesis by simp
qed

theorem fetch_failure_becomes_AsqioNetworkError_witness:
  "invoke
     \<lparr> this_baseUrl = ''https://api.example.com/api/v1'', this_tenantKey = ''test-tenant'',
       this_getToken = Inr ''test-token'', this_appVersion = None \<rparr>
     \<lparr> navigator = None, timeZone = ''UTC'', fetch = (\<lambda>url arg. Inl (OtherError ''TypeError'' ''Failed to fetch'')) \<rparr>
     (GetTickets None)
   = ([TokenRequested,
       FetchCalled ''https://api.example.com/api/v1/tickets''
         \<lparr> http_method = None, body = None,
             headers = Some [(''Authorization'', ''Bearer test-token''),
                             (''X-Tenant-Key'', ''test-tenant''),
                             (''Content-Type'', ''application/json''),
                             (''Accept'', ''application/json'')] \<rparr>],
      Inl (AsqioNetworkError ''Network request failed'' (OtherError ''TypeError'' ''Failed to fetch'')))"
  using fetch_failure_becomes_AsqioNetworkError
      [of "\<lparr> navigator = None, timeZone = ''UTC'', fetch = (\<lambda>url arg. Inl (OtherError ''TypeError'' ''Failed to fetch'')) \<rparr>"
       "\<lparr> this_baseUrl = ''https://api.example.com/api/v1'', this_tenantKey = ''test-tenant'',
       this_getToken = Inr ''test-token'', this_appVersion = None \<rparr>"
       "GetTickets None"
       "OtherError ''TypeError'' ''Failed to fetch''"]
  by (simp add: run_defs)

section \<open>No content\<close>

text \<open>
  Claim C4, as stated, fails for the two operations that read a property of what \<open>request\<close>
  resolved with: on a 204 response \<open>getTopics\<close> evaluates \<open>undefined.topics\<close> and rejects
  with a TypeError instead of resolving with \<open>undefined\<close>.
\<close>

theorem getTopics_no_content_rejects:
  "snd (invoke
     \<lparr> this_baseUrl = ''https://api.example.com/api/v1'', this_tenantKey = ''test-tenant'',
       this_getToken = Inr ''test-token'', this_appVersion = None \<rparr>
     \<lparr> navigator = None, timeZone = ''UTC'',
       fetch = (\<lambda>url arg. Inr \<lparr> ok = True, status = 204, json = Inl (OtherError ''Error'' ''No content'') \<rparr>) \<rparr>
     GetTopics)
   = Inl (OtherError ''TypeError''
            (''Cannot read properties of undefined (reading '' @ [CHR 0x27] @ ''topics'' @ [CHR 0x27] @ '')''))"
  by (simp add: run_defs)

text \<open>
  Claim C4, amended. On a response whose status is 204 \<open>request\<close> resolves with
  \<open>undefined\<close> and \<open>response.json()\<close> is not called: the token request and the call to
  \<open>fetch\<close> are the operation's only calls. Every operation but \<open>getTopics\<close> and
  \<open>getUnreadCount\<close> then resolves with \<open>undefined\<close>; those two reject with a TypeError.
\<close>

theorem no_content_skips_body:
  assumes "fetch_answer env (invoke this env op) = Some (Inr r)" and "status r = 204"
  shows "(\<exists>url arg. fst (invoke this env op) = [TokenRequested, FetchCalled url arg]) \<and>
         (if op = GetTopics \<or> op = GetUnreadCount
          then (\<exists>m. snd (invoke this env op) = Inl (OtherError ''TypeError'' m))
          else snd (invoke this env op) = Inr JUndefined)"
proof -
  from invoke_fetch_resolved [OF assms(1)] obtain url arg where
    "invoke this env op =
           (TokenRequested # FetchCalled url arg # fst (handle_response r),
            (case snd (handle_response r) of Inl e \<Rightarrow> Inl e | Inr v \<Rightarrow> op_result op v))"
    by blast
  then have run: "invoke this env op = ([TokenRequested, FetchCalled url arg], op_result op JUndefined)"
    by (simp add: handle_response_no_content [OF assms(2)])
  show ?thesis
    unfolding run by (cases op) (simp_all add: read_property_def nullish_def)
qed

theorem no_content_skips_body_witness:
  "invoke
     \<lparr> this_baseUrl = ''https://api.example.com/api/v1'', this_tenantKey = ''test-tenant'',
       this_getToken = Inr ''test-token'', this_appVersion = None \<rparr>
     \<lparr> navigator = None, timeZone = ''UTC'',
       fetch = (\<lambda>url arg. Inr \<lparr> ok = True, status = 204, json = Inl (OtherError ''Error'' ''No content'') \<rparr>) \<rparr>
     (MarkAsRead ''t1'')
   = ([TokenRequested,
       FetchCalled ''https://api.example.com/api/v1/tickets/t1/read''
         \<lparr> http_method = Some ''POST'', body = None,
             headers = Some [(''Authorization'', ''Bearer test-token''),
                             (''X-Tenant-Key'', ''test-tenant''),
                             (''Content-Type'', ''application/json''),
                             (''Accept'', ''application/json'')] \<rparr>],
      Inr JUndefined)"
  using no_content_skips_body
      [of "\<lparr> navigator = None, timeZone = ''UTC'',
       fetch = (\<lambda>url arg. Inr \<lparr> ok = True, status = 204, json = Inl (OtherError ''Error'' ''No content'') \<rparr>) \<rparr>"
       "\<lparr> this_baseUrl = ''https://api.example.com/api/v1'', this_tenantKey = ''test-tenant'',
       this_getToken = Inr ''test-token'', this_appVersion = None \<rparr>"
       "MarkAsRead ''t1''"
       "\<lparr> ok = True, status = 204, json = Inl (OtherError ''Error'' ''No content'') \<rparr>"]
  by (simp add: run_defs)

section \<open>The query string\<close>

lemma digit_char_is_digit: "is_digit (digit_char d)"
proof -
  have all: "list_all is_digit ''0123456789''" by (simp add: is_digit_def)
  have "d mod 10 < length ''0123456789''" by simp
  with all show ?thesis unfolding digit_char_def list_all_length by blast
qed

lemma show_nat_is_digit: "list_all is_digit (show_nat n)"
proof (induction n rule: show_nat.induct)
  case (1 n)
  show ?case
  proof (cases "n < 10")
    case True
    have "show_nat n = [digit_char n]" using True by (subst show_nat.simps) simp
    then show ?thesis by (simp add: digit_char_is_digit)
  next
    case False
    have "show_nat n = show_nat (n div 10) @ [digit_char (n mod 10)]"
      using False by (subst show_nat.simps) simp
    moreover have "list_all is_digit (show_nat (n div 10))" using 1 False by simp
    ultimately show ?thesis by (simp add: digit_char_is_digit)
  qed
qed

lemma show_int_plain: "list_all plain_char (show_int i)"
proof -
  have "list_all plain_char (show_nat n)" for n
    using show_nat_is_digit [of n] by (simp add: list_all_iff plain_char_def)
  then show ?thesis by (simp add: show_int_def plain_char_def)
qed

lemma form_encode_byte_plain: "plain_char c \<Longrightarrow> form_encode_byte c = [c]"
  by (auto simp: plain_char_def is_digit_def form_encode_byte_def form_safe_def Let_def)

lemma form_encode_plain: "list_all plain_char s \<Longrightarrow> form_encode s = s"
  by (induction s) (simp_all add: form_encode_def form_encode_byte_plain)

lemma form_encode_show_int: "form_encode (show_int i) = show_int i"
  by (rule form_encode_plain) (rule show_int_plain)


lemma form_encode_page: "form_encode ''page'' = ''page''"
  by (simp add: form_encode_def form_encode_byte_def form_safe_def)

lemma form_encode_per_page: "form_encode ''per_page'' = ''per_page''"
  by (simp add: form_encode_def form_encode_byte_def form_safe_def)

text \<open>
  Claim C5. Without a parameters object the query string is empty. With one, the supplied
  keys are those among \<open>page\<close> and \<open>per_page\<close> whose value is neither \<open>undefined\<close> nor
  \<open>null\<close>, in that order. When each supplied value has a string form, the query string
  holds exactly the supplied keys, in that order, each as \<open>key=value\<close> with the value
  converted to a string and form-encoded, joined by \<open>&\<close> after a \<open>?\<close>; it is empty, with
  no \<open>?\<close>, when no key is supplied. When a supplied value has no string form, no query
  string is built: \<open>buildQuery\<close> throws. A Number always has a string form, its decimal
  digits, which form-encoding leaves as they are.
\<close>

theorem buildQuery_supplied_keys:
  "buildQuery None = Inr [] \<and>
   (let supplied = filter (\<lambda>k. \<not> nullish (obj_get p k)) [''page'', ''per_page'']
    in if list_all (\<lambda>k. \<not> isl (toString_js (obj_get p k))) supplied
       then buildQuery (Some p) =
              Inr (if supplied = [] then []
                   else ''?'' @ intercalate ''&''
                          (map (\<lambda>k. k @ ''='' @ form_encode (projr (toString_js (obj_get p k))))
                             supplied))
       else isl (buildQuery (Some p))) \<and>
   toString_js (JNum n) = Inr (show_int (sint n)) \<and>
   form_encode (show_int (sint n)) = show_int (sint n)"
proof (intro conjI)
  show "buildQuery None = Inr []" by (simp add: buildQuery_def)
  show "toString_js (JNum n) = Inr (show_int (sint n))" by simp
  show "form_encode (show_int (sint n)) = show_int (sint n)" by (rule form_encode_show_int)
  show "let supplied = filter (\<lambda>k. \<not> nullish (obj_get p k)) [''page'', ''per_page'']
    in if list_all (\<lambda>k. \<not> isl (toString_js (obj_get p k))) supplied
       then buildQuery (Some p) =
              Inr (if supplied = [] then []
                   else ''?'' @ intercalate ''&''
                          (map (\<lambda>k. k @ ''='' @ form_encode (projr (toString_js (obj_get p k))))
                             supplied))
       else isl (buildQuery (Some p))"
  proof (cases "toString_js (obj_get p ''page'')")
    case page: (Inl e)
    show ?thesis
    proof (cases "toString_js (obj_get p ''per_page'')")
      case (Inl e')
      with page show ?thesis
        by (simp add: buildQuery_def search_toString_def Let_def)
    next
      case (Inr s')
      with page show ?thesis
        by (simp add: buildQuery_def search_toString_def Let_def form_encode_per_page)
    qed
  next
    case page: (Inr s)
    show ?thesis
    proof (cases "toString_js (obj_get p ''per_page'')")
      case (Inl e')
      with page show ?thesis
        by (simp add: buildQuery_def search_toString_def Let_def form_encode_page)
    next
      case (Inr s')
      with page show ?thesis
        by (simp add: buildQuery_def search_toString_def Let_def form_encode_page
              form_encode_per_page)
    qed
  qed
qed

theorem buildQuery_supplied_keys_witness:
  "buildQuery (Some [(''page'', JNum 2), (''per_page'', JNum 10)]) = Inr ''?page=2&per_page=10'' \<and>
   buildQuery (Some [(''per_page'', JNum 10), (''page'', JNull)]) = Inr ''?per_page=10'' \<and>
   buildQuery (Some [(''page'', JNum 0)]) = Inr ''?page=0'' \<and>
   buildQuery (Some []) = Inr [] \<and>
   isl (buildQuery (Some [(''page'', JObj [(''toString'', JNum 1)])]))"
  using
    buildQuery_supplied_keys [of "[(''page'', JNum 2), (''per_page'', JNum 10)]" 2]
    buildQuery_supplied_keys [of "[(''per_page'', JNum 10), (''page'', JNull)]" 10]
    buildQuery_supplied_keys [of "[(''page'', JNum 0)]" 0]
    buildQuery_supplied_keys [of "[]" 0]
    buildQuery_supplied_keys [of "[(''page'', JObj [(''toString'', JNum 1)])]" 0]
  by (simp add: obj_get_def nullish_def show_int_def show_nat.simps digit_char_def Let_def)

section \<open>The endpoint base\<close>

lemma all_slashes_replicate:
  "list_all (\<lambda>x. x = CHR ''/'') s \<Longrightarrow> s = replicate (length s) CHR ''/''"
  by (induction s) simp_all

lemma strip_trailing_slashes_split:
  "\<exists>n. s = strip_trailing_slashes s @ replicate n CHR ''/''"
proof (induction s)
  case Nil
  show ?case by simp
next
  case (Cons c cs)
  show ?case
  proof (cases "list_all (\<lambda>x. x = CHR ''/'') (c # cs)")
    case True
    then have "c # cs = replicate (length (c # cs)) CHR ''/''" by (rule all_slashes_replicate)
    with True show ?thesis by (metis append_Nil strip_trailing_slashes.simps(2))
  next
    case False
    from Cons obtain n where "cs = strip_trailing_slashes cs @ replicate n CHR ''/''" by blast
    with False show ?thesis by (metis append_Cons strip_trailing_slashes.simps(2))
  qed
qed

lemma strip_trailing_slashes_Nil:
  "strip_trailing_slashes s = [] \<Longrightarrow> list_all (\<lambda>x. x = CHR ''/'') s"
  by (cases s) (simp_all split: if_splits)

lemma strip_trailing_slashes_last:
  "strip_trailing_slashes s = [] \<or> last (strip_trailing_slashes s) \<noteq> CHR ''/''"
proof (induction s)
  case Nil
  show ?case by simp
next
  case (Cons c cs)
  show ?case
  proof (cases "list_all (\<lambda>x. x = CHR ''/'') (c # cs)")
    case True
    then show ?thesis by simp
  next
    case False
    show ?thesis
    proof (cases "strip_trailing_slashes cs = []")
      case True
      then have "list_all (\<lambda>x. x = CHR ''/'') cs" by (rule strip_trailing_slashes_Nil)
      with False have "c \<noteq> CHR ''/''" by simp
      with False True show ?thesis by simp
    next
      case nonempty: False
      with Cons have "last (strip_trailing_slashes cs) \<noteq> CHR ''/''" by simp
      with False nonempty show ?thesis by simp
    qed
  qed
qed

lemma op_path_shape:
  "op_args this env op = Inr (path, init) \<Longrightarrow>
   \<exists>c rest. path = CHR ''/'' # c # rest \<and> c \<noteq> CHR ''/''"
  by (cases op) (auto simp del: json_of.simps split: sum.splits)

text \<open>
  Claim C6. The constructor stores the configured base without its trailing slashes: the
  base is the stored stem followed by some number of slashes, and the stem does not end
  with a slash. Every operation's path starts with one slash followed by another
  character, and the URL given to \<open>fetch\<close> is the stem followed by the path: exactly one
  slash stands between the base and the path. (An operation whose arguments cannot be
  evaluated rejects before any URL is built.)
\<close>

theorem one_slash_between_base_and_path:
  assumes "getToken config = Inr t"
  shows "\<exists>stem n.
           baseUrl config = stem @ replicate n CHR ''/'' \<and>
           (stem = [] \<or> last stem \<noteq> CHR ''/'') \<and>
           this_baseUrl (new_AsqioClient config) = stem \<and>
           (case op_args (new_AsqioClient config) env op of
              Inl thrown_first \<Rightarrow>
                invoke (new_AsqioClient config) env op = ([], Inl thrown_first)
            | Inr prepared \<Rightarrow>
                (\<exists>c rest arg more.
                   c \<noteq> CHR ''/'' \<and>
                   fst (invoke (new_AsqioClient config) env op) =
                     TokenRequested # FetchCalled (stem @ CHR ''/'' # c # rest) arg # more))"
proof -
  let ?client = "new_AsqioClient config"
  let ?stem = "strip_trailing_slashes (baseUrl config)"
  have base: "this_baseUrl ?client = ?stem" by (simp add: new_AsqioClient_def)
  from assms have token: "this_getToken ?client = Inr t" by (simp add: new_AsqioClient_def)
  from strip_trailing_slashes_split obtain n where
    split: "baseUrl config = ?stem @ replicate n CHR ''/''" by blast
  have calls: "case op_args ?client env op of
              Inl thrown_first \<Rightarrow> invoke ?client env op = ([], Inl thrown_first)
            | Inr prepared \<Rightarrow>
                (\<exists>c rest arg more.
                   c \<noteq> CHR ''/'' \<and>
                   fst (invoke ?client env op) =
                     TokenRequested # FetchCalled (?stem @ CHR ''/'' # c # rest) arg # more)"
  proof (cases "op_args ?client env op")
    case (Inl thrown_first)
    then show ?thesis by (simp add: invoke_not_prepared)
  next
    case (Inr prepared)
    obtain path init where a: "prepared = (path, init)" by (cases prepared)
    note args = Inr [unfolded a]
    from request_events_resolved [OF token] obtain more where
      events: "fst (invoke ?client env op) =
         TokenRequested #
         FetchCalled (this_baseUrl ?client @ path)
           (request_init init (request_headers ?client t init)) # more"
      unfolding fst_invoke_prepared [OF args] by blast
    from op_path_shape [OF args] obtain c rest where
      path: "path = CHR ''/'' # c # rest" and c: "c \<noteq> CHR ''/''" by blast
    from events path c base Inr show ?thesis by auto
  qed
  from split strip_trailing_slashes_last [of "baseUrl config"] base calls
  show ?thesis by blast
qed

theorem one_slash_between_base_and_path_witness:
  "fst (invoke
     (new_AsqioClient
        \<lparr> baseUrl = ''https://api.example.com/api/v1///'', tenantKey = ''test-tenant'',
           getToken = Inr ''test-token'', appVersion = None \<rparr>)
     \<lparr> navigator = None, timeZone = ''UTC'',
           fetch = (\<lambda>url arg. Inr \<lparr> ok = True, status = 200,
                      json = Inr (JObj [(''unread_count'', JNum 0)]) \<rparr>) \<rparr>
     GetUnreadCount)
   = [TokenRequested,
      FetchCalled ''https://api.example.com/api/v1/unread_count''
        \<lparr> http_method = None, body = None,
          headers = Some [(''Authorization'', ''Bearer test-token''),
                          (''X-Tenant-Key'', ''test-tenant''),
                          (''Content-Type'', ''application/json''),
                          (''Accept'', ''application/json'')] \<rparr>,
      JsonRead]"
  using one_slash_between_base_and_path
      [of "\<lparr> baseUrl = ''https://api.example.com/api/v1///'', tenantKey = ''test-tenant'',
           getToken = Inr ''test-token'', appVersion = None \<rparr>"
       "''test-token''"
       "\<lparr> navigator = None, timeZone = ''UTC'',
           fetch = (\<lambda>url arg. Inr \<lparr> ok = True, status = 200,
                      json = Inr (JObj [(''unread_count'', JNum 0)]) \<rparr>) \<rparr>"
       GetUnreadCount]
  by (simp add: run_defs new_AsqioClient_def)

section \<open>The topics hook on failure\<close>

lemma after_history_snoc: "after_history st (h @ [x]) = after_stretch (after_history st h) x"
  by (simp add: after_history_def)

text \<open>
  Claim C9, as claimed, fails in two ways. A refetch that fails after an earlier fetch
  succeeded leaves the earlier topics in place: nothing resets the list. And the error
  state does not always hold the failure: a failure that is not an \<open>Error\<close> instance is
  replaced by a new \<open>Error\<close> carrying its string form, and when that failure has no string
  form (an object whose own \<open>toString\<close> is not callable) \<open>setError\<close> is never reached, so
  the error state stays empty.
\<close>

theorem failed_refetch_keeps_topics:
  "topics (after_history useTopics_initial
             [Called, Settled (Inr (JArr [JObj [(''id'', JStr ''1'')]])),
              Called, Settled (Inl (OtherError ''Error'' ''Network error''))])
     = JArr [JObj [(''id'', JStr ''1'')]] \<and>
   JArr [JObj [(''id'', JStr ''1'')]] \<noteq> JArr [] \<and>
   error (after_history useTopics_initial [Called, Settled (Inl (NonError (JStr ''boom'')))])
     = Some (OtherError ''Error'' ''boom'') \<and>
   Some (OtherError ''Error'' ''boom'') \<noteq> Some (NonError (JStr ''boom'')) \<and>
   error (after_history useTopics_initial
            [Called, Settled (Inl (NonError (JObj [(''toString'', JNum 1)])))])
     = None"
  by (simp add: after_history_def after_stretch_def fetchTopics_called_def
        fetchTopics_settled_def useTopics_initial_def new_Error_def)

text \<open>
  Claim C9, amended. Take any history of the hook (the stretches of this request and of
  any others that ran before) and let the client's promise of a request settle with a
  failure. Then the topics list is what it was immediately before the settlement; the
  loading flag is false; the error state holds the failure itself when it is an \<open>Error\<close>
  instance, a new \<open>Error\<close> with the failure's string form as message when it is not, and
  is left as it was when the failure has no string form, in which case \<open>fetchTopics\<close>
  rejects with what the conversion threw and otherwise it resolves. The two stretches of
  the request call \<open>setLoading(false)\<close> exactly once, as the last call of the request.
\<close>

theorem failed_fetch_sets_error:
  "(let before = after_history st h;
        after = after_history st (h @ [Settled (Inl e)])
    in topics after = topics before \<and>
       loading after = False \<and>
       error after =
         (if instanceof_Error e then Some e
          else (case String_thrown e of
                  Inr s \<Rightarrow> Some (new_Error s)
                | Inl t \<Rightarrow> error before))) \<and>
   snd (fetchTopics_settled (Inl e)) =
     (if instanceof_Error e then Inr JUndefined
      else (case String_thrown e of Inr s \<Rightarrow> Inr JUndefined | Inl t \<Rightarrow> Inl t)) \<and>
   length (filter (\<lambda>c. c = SetLoading False)
             (setter_calls Called @ setter_calls (Settled (Inl e)))) = 1 \<and>
   last (setter_calls Called @ setter_calls (Settled (Inl e))) = SetLoading False"
  by (simp add: after_history_snoc after_stretch_def fetchTopics_called_def
        fetchTopics_settled_def Let_def split: sum.splits)

theorem failed_fetch_sets_error_witness:
  "after_history useTopics_initial
     [Called, Called, Settled (Inr (JArr [JObj [(''id'', JStr ''1'')]])),
      Settled (Inl (AsqioNetworkError ''Network request failed'' (NonError (JStr ''offline''))))]
   = \<lparr> topics = JArr [JObj [(''id'', JStr ''1'')]], loading = False,
       error = Some (AsqioNetworkError ''Network request failed''
                       (NonError (JStr ''offline''))) \<rparr>"
  using failed_fetch_sets_error
      [of useTopics_initial
          "[Called, Called, Settled (Inr (JArr [JObj [(''id'', JStr ''1'')]]))]"
          "AsqioNetworkError ''Network request failed'' (NonError (JStr ''offline''))"]
  by (simp add: after_history_def after_stretch_def fetchTopics_called_def
        fetchTopics_settled_def useTopics_initial_def)

section \<open>Browser detection\<close>

lemma match_at_Some:
  "match_at lit cls s = Some v \<longleftrightarrow>
     take (length lit) s = lit \<and> v = takeWhile cls (drop (length lit) s) \<and> v \<noteq> []"
  by (auto simp: match_at_def)

lemma match_at_None:
  "match_at lit cls s = None \<longleftrightarrow> \<not> (\<exists>c post. s = lit @ c # post \<and> cls c)"
proof
  assume none: "match_at lit cls s = None"
  show "\<not> (\<exists>c post. s = lit @ c # post \<and> cls c)"
  proof
    assume "\<exists>c post. s = lit @ c # post \<and> cls c"
    then obtain c post where "s = lit @ c # post" "cls c" by blast
    then have "take (length lit) s = lit" "takeWhile cls (drop (length lit) s) \<noteq> []" by simp_all
    with none show False by (simp add: match_at_def)
  qed
next
  assume no: "\<not> (\<exists>c post. s = lit @ c # post \<and> cls c)"
  show "match_at lit cls s = None"
  proof (rule ccontr)
    assume "match_at lit cls s \<noteq> None"
    then have pre: "take (length lit) s = lit"
      and run: "takeWhile cls (drop (length lit) s) \<noteq> []"
      by (simp_all add: match_at_def split: if_splits)
    from run obtain c post where d: "drop (length lit) s = c # post" and "cls c"
      by (cases "drop (length lit) s") (auto split: if_splits)
    have "s = take (length lit) s @ drop (length lit) s" by simp
    with pre d have "s = lit @ c # post" by simp
    with \<open>cls c\<close> no show False by blast
  qed
qed

lemma regex_capture_None:
  "regex_capture lit cls s = None \<longleftrightarrow> \<not> (\<exists>pre c post. s = pre @ lit @ c # post \<and> cls c)"
proof (induction s)
  case Nil
  show ?case by simp
next
  case (Cons x xs)
  have "(\<exists>pre c post. x # xs = pre @ lit @ c # post \<and> cls c) \<longleftrightarrow>
        (\<exists>c post. x # xs = lit @ c # post \<and> cls c) \<or>
        (\<exists>pre c post. xs = pre @ lit @ c # post \<and> cls c)"
  proof
    assume "\<exists>pre c post. x # xs = pre @ lit @ c # post \<and> cls c"
    then obtain pre c post where eq: "x # xs = pre @ lit @ c # post" and c: "cls c" by blast
    show "(\<exists>c post. x # xs = lit @ c # post \<and> cls c) \<or>
          (\<exists>pre c post. xs = pre @ lit @ c # post \<and> cls c)"
    proof (cases pre)
      case Nil
      with eq c show ?thesis by auto
    next
      case (Cons y ys)
      with eq have "xs = ys @ lit @ c # post" by simp
      with c show ?thesis by blast
    qed
  next
    assume "(\<exists>c post. x # xs = lit @ c # post \<and> cls c) \<or>
            (\<exists>pre c post. xs = pre @ lit @ c # post \<and> cls c)"
    then show "\<exists>pre c post. x # xs = pre @ lit @ c # post \<and> cls c"
    proof
      assume "\<exists>c post. x # xs = lit @ c # post \<and> cls c"
      then obtain c post where "x # xs = [] @ lit @ c # post" "cls c" by auto
      then show ?thesis by blast
    next
      assume "\<exists>pre c post. xs = pre @ lit @ c # post \<and> cls c"
      then obtain pre c post where "xs = pre @ lit @ c # post" "cls c" by blast
      then have "x # xs = (x # pre) @ lit @ c # post" by simp
      with \<open>cls c\<close> show ?thesis by blast
    qed
  qed
  note split = this
  show ?case
  proof (cases "match_at lit cls (x # xs)")
    case None
    with match_at_None [of lit cls "x # xs"]
    have "\<not> (\<exists>c post. x # xs = lit @ c # post \<and> cls c)" by blast
    with None Cons split show ?thesis by simp
  next
    case (Some w)
    then have "match_at lit cls (x # xs) \<noteq> None" by simp
    with match_at_None [of lit cls "x # xs"]
    have "\<exists>c post. x # xs = lit @ c # post \<and> cls c" by blast
    with Some split show ?thesis by simp
  qed
qed

lemma match_at_shape:
  assumes "match_at lit cls s = Some v"
  shows "v \<noteq> [] \<and> list_all cls v \<and> (\<exists>post. s = lit @ v @ post)"
proof -
  from assms match_at_Some [of lit cls s v]
  have all: "take (length lit) s = lit \<and>
      v = takeWhile cls (drop (length lit) s) \<and> v \<noteq> []"
    by blast
  then have pre: "take (length lit) s = lit"
    and v: "v = takeWhile cls (drop (length lit) s)" and "v \<noteq> []"
    by blast+
  have "list_all cls v" unfolding v list_all_iff by (auto dest: set_takeWhileD)
  moreover have "s = take (length lit) s @ (takeWhile cls (drop (length lit) s) @ dropWhile cls (drop (length lit) s))"
    by simp
  with pre v have "s = lit @ v @ dropWhile cls (drop (length lit) s)" by simp
  ultimately show ?thesis using \<open>v \<noteq> []\<close> by blast
qed

lemma regex_capture_shape:
  "regex_capture lit cls s = Some v \<Longrightarrow>
   v \<noteq> [] \<and> list_all cls v \<and> (\<exists>pre post. s = pre @ lit @ v @ post)"
proof (induction s)
  case Nil
  then show ?case by simp
next
  case (Cons x xs)
  show ?case
  proof (cases "match_at lit cls (x # xs)")
    case None
    with Cons.prems have "regex_capture lit cls xs = Some v" by simp
    from Cons.IH [OF this] obtain pre post where
      "v \<noteq> []" "list_all cls v" "xs = pre @ lit @ v @ post" by blast
    then have "x # xs = (x # pre) @ lit @ v @ post" by simp
    with \<open>v \<noteq> []\<close> \<open>list_all cls v\<close> show ?thesis by blast
  next
    case (Some w)
    with Cons.prems have "w = v" by simp
    with Some match_at_shape [of lit cls "x # xs" v] obtain post where
      "v \<noteq> []" "list_all cls v" "x # xs = [] @ lit @ v @ post" by auto
    then show ?thesis by blast
  qed
qed

lemma regex_test_iff: "regex_test lit s \<longleftrightarrow> (\<exists>pre post. s = pre @ lit @ post)"
proof (induction s)
  case Nil
  show ?case by auto
next
  case (Cons x xs)
  have head: "take (length lit) (x # xs) = lit \<longleftrightarrow> (\<exists>post. x # xs = lit @ post)"
    by (metis append_eq_conv_conj append_take_drop_id)
  have "(\<exists>pre post. x # xs = pre @ lit @ post) \<longleftrightarrow>
        (\<exists>post. x # xs = lit @ post) \<or> (\<exists>pre post. xs = pre @ lit @ post)"
  proof
    assume "\<exists>pre post. x # xs = pre @ lit @ post"
    then obtain pre post where eq: "x # xs = pre @ lit @ post" by blast
    show "(\<exists>post. x # xs = lit @ post) \<or> (\<exists>pre post. xs = pre @ lit @ post)"
    proof (cases pre)
      case Nil
      with eq show ?thesis by auto
    next
      case (Cons y ys)
      with eq have "xs = ys @ lit @ post" by simp
      then show ?thesis by blast
    qed
  next
    assume "(\<exists>post. x # xs = lit @ post) \<or> (\<exists>pre post. xs = pre @ lit @ post)"
    then show "\<exists>pre post. x # xs = pre @ lit @ post"
    proof
      assume "\<exists>post. x # xs = lit @ post"
      then obtain post where "x # xs = [] @ lit @ post" by auto
      then show ?thesis by blast
    next
      assume "\<exists>pre post. xs = pre @ lit @ post"
      then obtain pre post where "xs = pre @ lit @ post" by blast
      then have "x # xs = (x # pre) @ lit @ post" by simp
      then show ?thesis by blast
    qed
  qed
  with Cons head show ?case by simp
qed

lemma capture_None_signature:
  "regex_capture lit digit_or_dot ua = None \<longleftrightarrow> \<not> has_signature lit ua"
  by (simp add: regex_capture_None has_signature_def)

lemma test_substring: "regex_test lit ua \<longleftrightarrow> has_substring lit ua"
  by (simp add: regex_test_iff has_substring_def)


lemma capture_signature:
  assumes "has_signature lit ua"
  shows "\<exists>v pre post. regex_capture lit digit_or_dot ua = Some v \<and> v \<noteq> [] \<and>
           list_all digit_or_dot v \<and> ua = pre @ lit @ v @ post"
proof -
  from assms have "regex_capture lit digit_or_dot ua \<noteq> None"
    by (simp add: capture_None_signature)
  then obtain v where v: "regex_capture lit digit_or_dot ua = Some v" by blast
  from regex_capture_shape [OF v] v show ?thesis by blast
qed

lemma signature_substring:
  "has_signature (lit @ [x]) ua \<Longrightarrow> has_substring lit ua"
  unfolding has_signature_def has_substring_def by (metis append.assoc)

lemma detectBrowser_Edge:
  "regex_capture ''Edg/'' digit_or_dot ua = Some v \<Longrightarrow> detectBrowser ua = ''Edge '' @ v"
  by (simp add: detectBrowser_def)

lemma detectBrowser_Chrome:
  "\<not> has_signature ''Edg/'' ua \<Longrightarrow> regex_capture ''Chrome/'' digit_or_dot ua = Some v \<Longrightarrow>
   detectBrowser ua = ''Chrome '' @ v"
  by (simp add: detectBrowser_def capture_None_signature [symmetric])

lemma detectBrowser_Firefox:
  "\<not> has_signature ''Edg/'' ua \<Longrightarrow> \<not> has_signature ''Chrome/'' ua \<Longrightarrow>
   regex_capture ''Firefox/'' digit_or_dot ua = Some v \<Longrightarrow>
   detectBrowser ua = ''Firefox '' @ v"
  by (simp add: detectBrowser_def capture_None_signature [symmetric])

lemma detectBrowser_Safari:
  "\<not> has_signature ''Edg/'' ua \<Longrightarrow> \<not> has_signature ''Chrome/'' ua \<Longrightarrow>
   \<not> has_signature ''Firefox/'' ua \<Longrightarrow> \<not> has_substring ''Chrome'' ua \<Longrightarrow>
   regex_capture ''Safari/'' digit_or_dot ua = Some v \<Longrightarrow>
   detectBrowser ua = ''Safari '' @ v"
  by (simp add: detectBrowser_def capture_None_signature [symmetric] test_substring)

lemma detectBrowser_raw:
  "\<not> has_signature ''Edg/'' ua \<Longrightarrow> \<not> has_signature ''Chrome/'' ua \<Longrightarrow>
   \<not> has_signature ''Firefox/'' ua \<Longrightarrow>
   has_substring ''Chrome'' ua \<or> \<not> has_signature ''Safari/'' ua \<Longrightarrow>
   detectBrowser ua = (if ua \<noteq> [] then ua else ''Unknown'')"
  by (auto simp: detectBrowser_def capture_None_signature [symmetric] test_substring
           split: option.splits)

lemma detectBrowser_outcomes:
  "(\<exists>v. detectBrowser ua = ''Edge '' @ v) \<or> (\<exists>v. detectBrowser ua = ''Chrome '' @ v) \<or>
   (\<exists>v. detectBrowser ua = ''Firefox '' @ v) \<or>
   (\<not> has_substring ''Chrome'' ua \<and> (\<exists>v. detectBrowser ua = ''Safari '' @ v)) \<or>
   detectBrowser ua = (if ua \<noteq> [] then ua else ''Unknown'')"
  by (auto simp: detectBrowser_def test_substring split: option.splits)

lemma not_Safari_with_Chrome:
  assumes chrome: "has_substring ''Chrome'' ua"
    and safari: "detectBrowser ua = ''Safari '' @ v" and v: "list_all digit_or_dot v"
  shows False
proof -
  from chrome have C: "CHR ''C'' \<in> set ua" by (auto simp: has_substring_def)
  have notv: "CHR ''C'' \<notin> set v"
  proof
    assume "CHR ''C'' \<in> set v"
    with v have "digit_or_dot CHR ''C''" by (simp add: list_all_iff)
    then show False by (simp add: digit_or_dot_def is_digit_def)
  qed
  from detectBrowser_outcomes [of ua] chrome safari
  have "''Safari '' @ v = (if ua \<noteq> [] then ua else ''Unknown'')" by auto
  with C have "ua = ''Safari '' @ v" by (auto split: if_splits)
  with C notv show False by simp
qed

lemma has_signature_code:
  "has_signature lit ua \<longleftrightarrow> regex_capture lit digit_or_dot ua \<noteq> None"
  by (simp add: capture_None_signature)

text \<open>
  Claim C8. The browser is detected in a fixed order. A string with an Edge signature
  (\<open>Edg/\<close> and a version) gives \<open>Edge\<close> and the version after it, whatever else the
  string holds, a Chrome signature included. Chrome is reported only without an Edge
  signature, Firefox only without both. A Safari signature is honoured only when the string
  does not contain \<open>Chrome\<close>: with \<open>Chrome\<close> in the string the result is never \<open>Safari\<close>
  and a version. A string that is not empty and has no signature that counts is returned as
  it is, and the empty string gives \<open>Unknown\<close>.
\<close>

theorem detectBrowser_priority:
  "(has_signature ''Edg/'' ua \<longrightarrow>
      (\<exists>v pre post. detectBrowser ua = ''Edge '' @ v \<and> v \<noteq> [] \<and> list_all digit_or_dot v \<and>
                     ua = pre @ ''Edg/'' @ v @ post)) \<and>
   (\<not> has_signature ''Edg/'' ua \<and> has_signature ''Chrome/'' ua \<longrightarrow>
      (\<exists>v pre post. detectBrowser ua = ''Chrome '' @ v \<and> v \<noteq> [] \<and> list_all digit_or_dot v \<and>
                     ua = pre @ ''Chrome/'' @ v @ post)) \<and>
   (\<not> has_signature ''Edg/'' ua \<and> \<not> has_signature ''Chrome/'' ua \<and>
    has_signature ''Firefox/'' ua \<longrightarrow>
      (\<exists>v pre post. detectBrowser ua = ''Firefox '' @ v \<and> v \<noteq> [] \<and> list_all digit_or_dot v \<and>
                     ua = pre @ ''Firefox/'' @ v @ post)) \<and>
   (\<not> has_signature ''Edg/'' ua \<and> \<not> has_signature ''Firefox/'' ua \<and>
    has_signature ''Safari/'' ua \<and> \<not> has_substring ''Chrome'' ua \<longrightarrow>
      (\<exists>v pre post. detectBrowser ua = ''Safari '' @ v \<and> v \<noteq> [] \<and> list_all digit_or_dot v \<and>
                     ua = pre @ ''Safari/'' @ v @ post)) \<and>
   (has_substring ''Chrome'' ua \<longrightarrow>
      \<not> (\<exists>v. detectBrowser ua = ''Safari '' @ v \<and> list_all digit_or_dot v)) \<and>
   (\<not> has_signature ''Edg/'' ua \<and> \<not> has_signature ''Chrome/'' ua \<and>
    \<not> has_signature ''Firefox/'' ua \<and>
    (has_substring ''Chrome'' ua \<or> \<not> has_signature ''Safari/'' ua) \<and> ua \<noteq> [] \<longrightarrow>
      detectBrowser ua = ua) \<and>
   detectBrowser [] = ''Unknown''"
proof (intro conjI impI)
  assume "has_signature ''Edg/'' ua"
  from capture_signature [OF this] detectBrowser_Edge [of ua]
  show "\<exists>v pre post. detectBrowser ua = ''Edge '' @ v \<and> v \<noteq> [] \<and> list_all digit_or_dot v \<and>
                     ua = pre @ ''Edg/'' @ v @ post"
    by metis
next
  assume a: "\<not> has_signature ''Edg/'' ua \<and> has_signature ''Chrome/'' ua"
  then have "has_signature ''Chrome/'' ua" by simp
  from capture_signature [OF this] detectBrowser_Chrome [of ua] a
  show "\<exists>v pre post. detectBrowser ua = ''Chrome '' @ v \<and> v \<noteq> [] \<and> list_all digit_or_dot v \<and>
                     ua = pre @ ''Chrome/'' @ v @ post"
    by metis
next
  assume a: "\<not> has_signature ''Edg/'' ua \<and> \<not> has_signature ''Chrome/'' ua \<and>
    has_signature ''Firefox/'' ua"
  then have "has_signature ''Firefox/'' ua" by simp
  from capture_signature [OF this] detectBrowser_Firefox [of ua] a
  show "\<exists>v pre post. detectBrowser ua = ''Firefox '' @ v \<and> v \<noteq> [] \<and> list_all digit_or_dot v \<and>
                     ua = pre @ ''Firefox/'' @ v @ post"
    by metis
next
  assume a: "\<not> has_signature ''Edg/'' ua \<and> \<not> has_signature ''Firefox/'' ua \<and>
    has_signature ''Safari/'' ua \<and> \<not> has_substring ''Chrome'' ua"
  then have s: "has_signature ''Safari/'' ua" by simp
  from a signature_substring [of "''Chrome''" "CHR ''/''" ua]
  have "\<not> has_signature ''Chrome/'' ua" by auto
  with capture_signature [OF s] detectBrowser_Safari [of ua] a
  show "\<exists>v pre post. detectBrowser ua = ''Safari '' @ v \<and> v \<noteq> [] \<and> list_all digit_or_dot v \<and>
                     ua = pre @ ''Safari/'' @ v @ post"
    by metis
next
  assume "has_substring ''Chrome'' ua"
  then show "\<not> (\<exists>v. detectBrowser ua = ''Safari '' @ v \<and> list_all digit_or_dot v)"
    using not_Safari_with_Chrome by blast
next
  assume "\<not> has_signature ''Edg/'' ua \<and> \<not> has_signature ''Chrome/'' ua \<and>
    \<not> has_signature ''Firefox/'' ua \<and>
    (has_substring ''Chrome'' ua \<or> \<not> has_signature ''Safari/'' ua) \<and> ua \<noteq> []"
  then show "detectBrowser ua = ua" using detectBrowser_raw [of ua] by simp
next
  show "detectBrowser [] = ''Unknown''" by (simp add: detectBrowser_def)
qed

theorem detectBrowser_priority_witness:
  "has_signature ''Edg/'' ''Mozilla/5.0 (Windows NT 10.0; Win64; x64) AppleWebKit/537.36 (KHTML, like Gecko) Chrome/120.0.0.0 Safari/537.36 Edg/120.0.2210.91'' \<and>
   has_signature ''Chrome/'' ''Mozilla/5.0 (Windows NT 10.0; Win64; x64) AppleWebKit/537.36 (KHTML, like Gecko) Chrome/120.0.0.0 Safari/537.36 Edg/120.0.2210.91'' \<and>
   detectBrowser ''Mozilla/5.0 (Windows NT 10.0; Win64; x64) AppleWebKit/537.36 (KHTML, like Gecko) Chrome/120.0.0.0 Safari/537.36 Edg/120.0.2210.91'' = ''Edge 120.0.2210.91''"
proof -
  have edge: "regex_capture ''Edg/'' digit_or_dot ''Mozilla/5.0 (Windows NT 10.0; Win64; x64) AppleWebKit/537.36 (KHTML, like Gecko) Chrome/120.0.0.0 Safari/537.36 Edg/120.0.2210.91'' \<noteq> None"
    by code_simp
  have chrome: "regex_capture ''Chrome/'' digit_or_dot ''Mozilla/5.0 (Windows NT 10.0; Win64; x64) AppleWebKit/537.36 (KHTML, like Gecko) Chrome/120.0.0.0 Safari/537.36 Edg/120.0.2210.91'' \<noteq> None"
    by code_simp
  have result: "detectBrowser ''Mozilla/5.0 (Windows NT 10.0; Win64; x64) AppleWebKit/537.36 (KHTML, like Gecko) Chrome/120.0.0.0 Safari/537.36 Edg/120.0.2210.91'' = ''Edge 120.0.2210.91''"
    by code_simp
  from edge chrome result detectBrowser_priority [of "''Mozilla/5.0 (Windows NT 10.0; Win64; x64) AppleWebKit/537.36 (KHTML, like Gecko) Chrome/120.0.0.0 Safari/537.36 Edg/120.0.2210.91''"]
  show ?thesis by (simp add: has_signature_code)
qed

section \<open>The body of a created ticket\<close>

lemma map_of_filter_other:
  "k' \<noteq> k \<Longrightarrow> map_of (filter (\<lambda>p. fst p \<noteq> k) ps) k' = map_of ps k'"
  by (induction ps) auto

lemma map_of_filter_same: "map_of (filter (\<lambda>p. fst p \<noteq> k) ps) k = None"
  by (induction ps) auto

lemma map_of_rev_obj_set:
  "map_of (rev (obj_set k v ps)) k' = (if k' = k then Some v else map_of (rev ps) k')"
proof (induction ps)
  case Nil
  show ?case by simp
next
  case (Cons p ps)
  obtain a b where p: "p = (a, b)" by (cases p)
  show ?case
  proof (cases "a = k")
    case True
    then show ?thesis
      by (simp add: p rev_filter map_add_def map_of_filter_other map_of_filter_same
               split: option.splits)
  next
    case False
    with Cons show ?thesis by (simp add: p map_add_def split: option.splits)
  qed
qed

lemma obj_get_obj_set:
  "obj_get (obj_set k v ps) k' = (if k' = k then v else obj_get ps k')"
  by (simp add: obj_get_def map_of_rev_obj_set)

lemma obj_get_spread:
  "obj_get (spread src tgt) k =
     (case map_of (rev src) k of Some v \<Rightarrow> v | None \<Rightarrow> obj_get tgt k)"
proof (induction src arbitrary: tgt)
  case Nil
  show ?case by (simp add: spread_def)
next
  case (Cons p src)
  have "spread (p # src) tgt = spread src (obj_set (fst p) (snd p) tgt)"
    by (simp add: spread_def)
  then show ?case
    by (cases p) (simp add: Cons obj_get_obj_set map_add_def split: option.splits)
qed

lemma obj_get_spread_empty: "obj_get (spread src []) k = obj_get src k"
  using obj_get_spread [of src "[]" k] by (simp add: obj_get_def split: option.splits)

lemma obj_get_without:
  "obj_get (filter (\<lambda>p. fst p \<noteq> F) ps) k = (if k = F then JUndefined else obj_get ps k)"
  by (simp add: obj_get_def rev_filter map_of_filter_other map_of_filter_same)

lemma keys_obj_set: "set (map fst (obj_set k v ps)) = insert k (set (map fst ps))"
proof (induction ps)
  case Nil
  show ?case by simp
next
  case (Cons p ps)
  obtain a b where p: "p = (a, b)" by (cases p)
  show ?case
  proof (cases "a = k")
    case True
    have "fst ` {x \<in> set ps. fst x \<noteq> k} = fst ` set ps - {k}" by force
    with True show ?thesis by (auto simp: p)
  next
    case False
    with Cons show ?thesis by (auto simp: p)
  qed
qed

lemma distinct_obj_set:
  "distinct (map fst ps) \<Longrightarrow> distinct (map fst (obj_set k v ps))"
proof (induction ps)
  case Nil
  show ?case by simp
next
  case (Cons p ps)
  obtain a b where p: "p = (a, b)" by (cases p)
  show ?case
  proof (cases "a = k")
    case True
    with Cons.prems show ?thesis by (auto simp: p distinct_map_filter)
  next
    case False
    from Cons have "distinct (map fst (obj_set k v ps))" by simp
    moreover from Cons.prems False have "a \<notin> set (map fst (obj_set k v ps))"
      unfolding keys_obj_set by (simp add: p)
    ultimately show ?thesis using False by (simp add: p)
  qed
qed

lemma distinct_spread:
  "distinct (map fst tgt) \<Longrightarrow> distinct (map fst (spread src tgt))"
proof (induction src arbitrary: tgt)
  case Nil
  then show ?case by (simp add: spread_def)
next
  case (Cons p src)
  have "spread (p # src) tgt = spread src (obj_set (fst p) (snd p) tgt)"
    by (simp add: spread_def)
  with Cons show ?case by (simp add: distinct_obj_set)
qed

lemma map_of_rev_distinct:
  "distinct (map fst ps) \<Longrightarrow> map_of (rev ps) k = map_of ps k"
proof (induction ps)
  case Nil
  show ?case by simp
next
  case (Cons p ps)
  obtain a b where p: "p = (a, b)" by (cases p)
  from Cons have ih: "map_of (rev ps) k = map_of ps k" by simp
  from Cons.prems have "a \<notin> fst ` set ps" by (simp add: p)
  then have "map_of ps a = None" by (simp add: map_of_eq_None_iff)
  with ih show ?case by (auto simp: p map_add_def split: option.splits)
qed

lemma json_props_keys:
  "json_props ps = Inr qs \<Longrightarrow>
   map fst qs = map fst (filter (\<lambda>p. snd p \<noteq> JUndefined) ps)"
proof (induction ps arbitrary: qs)
  case Nil
  then show ?case by simp
next
  case (Cons p ps)
  show ?case
  proof (cases "snd p = JUndefined")
    case True
    with Cons show ?thesis by simp
  next
    case False
    with Cons.prems obtain w qs' where
      w: "json_of (snd p) = Inr w" and rest: "json_props ps = Inr qs'" and
      qs: "qs = (fst p, w) # qs'"
      by (auto split: sum.splits)
    from Cons.IH [OF rest] False qs show ?thesis by simp
  qed
qed

lemma json_props_lookup:
  "json_props ps = Inr qs \<Longrightarrow> distinct (map fst ps) \<Longrightarrow>
   Inr (case map_of qs k of None \<Rightarrow> JUndefined | Some w \<Rightarrow> w) =
     json_of (case map_of ps k of None \<Rightarrow> JUndefined | Some v \<Rightarrow> v)"
proof (induction ps arbitrary: qs)
  case Nil
  then show ?case by simp
next
  case (Cons p ps)
  obtain a b where p: "p = (a, b)" by (cases p)
  from Cons.prems have fresh: "a \<notin> fst ` set ps" and d: "distinct (map fst ps)"
    by (simp_all add: p)
  show ?case
  proof (cases "b = JUndefined")
    case True
    with Cons.prems have rest: "json_props ps = Inr qs" by (simp add: p)
    from json_props_keys [OF rest] have "set (map fst qs) \<subseteq> set (map fst ps)" by auto
    with fresh have "a \<notin> fst ` set qs" by auto
    then have none: "map_of qs a = None" by (simp add: map_of_eq_None_iff)
    show ?thesis
    proof (cases "k = a")
      case same: True
      with none True show ?thesis by (simp add: p)
    next
      case False
      with Cons.IH [OF rest d] show ?thesis by (simp add: p)
    qed
  next
    case False
    with Cons.prems obtain w qs' where
      w: "json_of b = Inr w" and rest: "json_props ps = Inr qs'" and qs: "qs = (a, w) # qs'"
      by (auto simp: p split: sum.splits)
    show ?thesis
    proof (cases "k = a")
      case True
      with w qs show ?thesis by (simp add: p)
    next
      case False
      with Cons.IH [OF rest d] qs show ?thesis by (simp add: p)
    qed
  qed
qed

lemma optional_get_json_of:
  assumes "json_of (JObj ps) = Inr d" and "distinct (map fst ps)"
  shows "Inr (optional_get d k) = json_of (obj_get ps k)"
proof -
  from assms(1) obtain qs where qs: "json_props ps = Inr qs" and d: "d = JObj qs"
    by (auto split: sum.splits)
  from assms(2) have "distinct (map fst (filter (\<lambda>p. snd p \<noteq> JUndefined) ps))"
    by (rule distinct_map_filter)
  with json_props_keys [OF qs] have dq: "distinct (map fst qs)" by simp
  have "optional_get d k = (case map_of qs k of None \<Rightarrow> JUndefined | Some w \<Rightarrow> w)"
    by (simp add: d optional_get_def obj_get_def map_of_rev_distinct [OF dq])
  moreover have "obj_get ps k = (case map_of ps k of None \<Rightarrow> JUndefined | Some v \<Rightarrow> v)"
    by (simp add: obj_get_def map_of_rev_distinct [OF assms(2)])
  ultimately show ?thesis using json_props_lookup [OF qs assms(2), of k] by (simp only:)
qed

lemma createTicket_body_get:
  "obj_get (createTicket_body this env params) k =
     (if k = ''app_version''
      then coalesce (obj_get params ''app_version'')
             (case this_appVersion this of None \<Rightarrow> JUndefined | Some v \<Rightarrow> JStr v)
      else if k = ''timezone''
      then coalesce (obj_get params ''timezone'') (JStr (timezone (detectDeviceInfo env)))
      else if k = ''locale''
      then coalesce (obj_get params ''locale'') (JStr (locale' (detectDeviceInfo env)))
      else if k = ''device_model''
      then coalesce (obj_get params ''device_model'') (JStr (device_model (detectDeviceInfo env)))
      else if k = ''os_version''
      then coalesce (obj_get params ''os_version'') (JStr (os_version (detectDeviceInfo env)))
      else if k = ''platform''
      then coalesce (obj_get params ''platform'') (JStr (platform (detectDeviceInfo env)))
      else obj_get params k)"
  by (simp add: createTicket_body_def Let_def obj_get_obj_set obj_get_spread_empty)

lemma createTicket_body_distinct: "distinct (map fst (createTicket_body this env params))"
  by (simp add: createTicket_body_def Let_def distinct_obj_set distinct_spread)

lemma createTicket_not_serialised:
  "json_of (JObj (createTicket_body this env params)) = Inl e \<Longrightarrow>
   createTicket this env params = ([], Inl e)"
  by (simp add: createTicket_def del: json_of.simps)

lemma sent_field_createTicket:
  assumes "this_getToken this = Inr t"
    and "json_of (JObj (createTicket_body this env params)) = Inr d"
  shows "Inr (sent_field (createTicket this env params) k) =
           json_of (obj_get (createTicket_body this env params) k)"
proof -
  let ?init = "Some \<lparr> http_method = Some ''POST'', body = Some d, headers = None \<rparr>"
  from assms(2) have "createTicket this env params = request this env ''/tickets'' ?init"
    by (simp add: createTicket_def del: json_of.simps)
  with request_events_resolved [OF assms(1), of env "''/tickets''" ?init] obtain more where
    "fst (createTicket this env params) =
       TokenRequested #
       FetchCalled (this_baseUrl this @ ''/tickets'')
         (request_init ?init (request_headers this t ?init)) # more"
    by auto
  then have "sent_field (createTicket this env params) k = optional_get d k"
    by (simp add: sent_field_def request_init_def)
  with optional_get_json_of [OF assms(2) createTicket_body_distinct, of k]
  show ?thesis by (simp only:)
qed

text \<open>
  Claim C7. \<open>createTicket\<close> serialises its body before it calls \<open>request\<close>; when a
  parameter cannot be serialised the call throws there and no body exists. Otherwise, in
  the JSON body \<open>createTicket\<close> gives to \<open>fetch\<close>, each of \<open>platform\<close>, \<open>os_version\<close>,
  \<open>device_model\<close>, \<open>locale\<close> and \<open>timezone\<close> is the caller's value when the caller
  supplied one (as JSON.stringify writes it: a string stays the string it is), and the
  probe's output for the environment otherwise; \<open>app_version\<close> is the caller's value when
  supplied, else the client's configured application version (left out of the body when
  none is configured).
\<close>

theorem createTicket_fills_device_fields:
  assumes "this_getToken this = Inr t"
  shows
   "(case json_of (JObj (createTicket_body this env params)) of
       Inl thrown_first \<Rightarrow> createTicket this env params = ([], Inl thrown_first)
     | Inr document \<Rightarrow>
           Inr (sent_field (createTicket this env params) ''platform'') =
             (if nullish (obj_get params ''platform'')
              then Inr (JStr (platform (detectDeviceInfo env)))
              else json_of (obj_get params ''platform'')) \<and>
           Inr (sent_field (createTicket this env params) ''os_version'') =
             (if nullish (obj_get params ''os_version'')
              then Inr (JStr (os_version (detectDeviceInfo env)))
              else json_of (obj_get params ''os_version'')) \<and>
           Inr (sent_field (createTicket this env params) ''device_model'') =
             (if nullish (obj_get params ''device_model'')
              then Inr (JStr (device_model (detectDeviceInfo env)))
              else json_of (obj_get params ''device_model'')) \<and>
           Inr (sent_field (createTicket this env params) ''locale'') =
             (if nullish (obj_get params ''locale'')
              then Inr (JStr (locale' (detectDeviceInfo env)))
              else json_of (obj_get params ''locale'')) \<and>
           Inr (sent_field (createTicket this env params) ''timezone'') =
             (if nullish (obj_get params ''timezone'')
              then Inr (JStr (timezone (detectDeviceInfo env)))
              else json_of (obj_get params ''timezone'')) \<and>
           Inr (sent_field (createTicket this env params) ''app_version'') =
             (if nullish (obj_get params ''app_version'')
              then Inr (case this_appVersion this of None \<Rightarrow> JUndefined | Some v \<Rightarrow> JStr v)
              else json_of (obj_get params ''app_version''))) \<and>
    json_of (JStr s) = Inr (JStr s)"
proof (cases "json_of (JObj (createTicket_body this env params))")
  case (Inl e)
  have "json_of (JStr s) = Inr (JStr s)" by simp
  with Inl show ?thesis by (simp add: createTicket_not_serialised del: json_of.simps)
next
  case (Inr d)
  have sent: "Inr (sent_field (createTicket this env params) k) =
      json_of (obj_get (createTicket_body this env params) k)" for k
    using assms Inr by (rule sent_field_createTicket)
  have fields: "Inr (sent_field (createTicket this env params) ''platform'') =
             (if nullish (obj_get params ''platform'')
              then Inr (JStr (platform (detectDeviceInfo env)))
              else json_of (obj_get params ''platform'')) \<and>
           Inr (sent_field (createTicket this env params) ''os_version'') =
             (if nullish (obj_get params ''os_version'')
              then Inr (JStr (os_version (detectDeviceInfo env)))
              else json_of (obj_get params ''os_version'')) \<and>
           Inr (sent_field (createTicket this env params) ''device_model'') =
             (if nullish (obj_get params ''device_model'')
              then Inr (JStr (device_model (detectDeviceInfo env)))
              else json_of (obj_get params ''device_model'')) \<and>
           Inr (sent_field (createTicket this env params) ''locale'') =
             (if nullish (obj_get params ''locale'')
              then Inr (JStr (locale' (detectDeviceInfo env)))
              else json_of (obj_get params ''locale'')) \<and>
           Inr (sent_field (createTicket this env params) ''timezone'') =
             (if nullish (obj_get params ''timezone'')
              then Inr (JStr (timezone (detectDeviceInfo env)))
              else json_of (obj_get params ''timezone'')) \<and>
           Inr (sent_field (createTicket this env params) ''app_version'') =
             (if nullish (obj_get params ''app_version'')
              then Inr (case this_appVersion this of None \<Rightarrow> JUndefined | Some v \<Rightarrow> JStr v)
              else json_of (obj_get params ''app_version''))"
    unfolding sent
    by (simp add: createTicket_body_get coalesce_def nullish_def split: option.splits)
  have "json_of (JStr s) = Inr (JStr s)" by simp
  with fields show ?thesis unfolding Inr sum.case by (rule conjI)
qed

theorem createTicket_fills_device_fields_witness:
  "sent_field (createTicket
      \<lparr> this_baseUrl = ''https://api.example.com/api/v1'', this_tenantKey = ''test-tenant'',
       this_getToken = Inr ''test-token'', this_appVersion = Some ''2.0.0'' \<rparr>
      \<lparr> navigator = Some \<lparr> userAgent = ''Firefox/121.0'', language = ''en-US'' \<rparr>,
       timeZone = ''Asia/Tokyo'',
       fetch = (\<lambda>url arg. Inr \<lparr> ok = True, status = 200, json = Inr (JObj [(''id'', JStr ''t1'')]) \<rparr>) \<rparr>
      [(''message'', JStr ''Hello''), (''platform'', JStr ''ios''), (''locale'', JStr ''ja-JP'')]) ''platform'' = JStr ''ios'' \<and>
   sent_field (createTicket
      \<lparr> this_baseUrl = ''https://api.example.com/api/v1'', this_tenantKey = ''test-tenant'',
       this_getToken = Inr ''test-token'', this_appVersion = Some ''2.0.0'' \<rparr>
      \<lparr> navigator = Some \<lparr> userAgent = ''Firefox/121.0'', language = ''en-US'' \<rparr>,
       timeZone = ''Asia/Tokyo'',
       fetch = (\<lambda>url arg. Inr \<lparr> ok = True, status = 200, json = Inr (JObj [(''id'', JStr ''t1'')]) \<rparr>) \<rparr>
      [(''message'', JStr ''Hello''), (''platform'', JStr ''ios''), (''locale'', JStr ''ja-JP'')]) ''locale'' = JStr ''ja-JP'' \<and>
   sent_field (createTicket
      \<lparr> this_baseUrl = ''https://api.example.com/api/v1'', this_tenantKey = ''test-tenant'',
       this_getToken = Inr ''test-token'', this_appVersion = Some ''2.0.0'' \<rparr>
      \<lparr> navigator = Some \<lparr> userAgent = ''Firefox/121.0'', language = ''en-US'' \<rparr>,
       timeZone = ''Asia/Tokyo'',
       fetch = (\<lambda>url arg. Inr \<lparr> ok = True, status = 200, json = Inr (JObj [(''id'', JStr ''t1'')]) \<rparr>) \<rparr>
      [(''message'', JStr ''Hello''), (''platform'', JStr ''ios''), (''locale'', JStr ''ja-JP'')]) ''device_model'' = JStr ''Firefox 121.0'' \<and>
   sent_field (createTicket
      \<lparr> this_baseUrl = ''https://api.example.com/api/v1'', this_tenantKey = ''test-tenant'',
       this_getToken = Inr ''test-token'', this_appVersion = Some ''2.0.0'' \<rparr>
      \<lparr> navigator = Some \<lparr> userAgent = ''Firefox/121.0'', language = ''en-US'' \<rparr>,
       timeZone = ''Asia/Tokyo'',
       fetch = (\<lambda>url arg. Inr \<lparr> ok = True, status = 200, json = Inr (JObj [(''id'', JStr ''t1'')]) \<rparr>) \<rparr>
      [(''message'', JStr ''Hello''), (''platform'', JStr ''ios''), (''locale'', JStr ''ja-JP'')]) ''timezone'' = JStr ''Asia/Tokyo'' \<and>
   sent_field (createTicket
      \<lparr> this_baseUrl = ''https://api.example.com/api/v1'', this_tenantKey = ''test-tenant'',
       this_getToken = Inr ''test-token'', this_appVersion = Some ''2.0.0'' \<rparr>
      \<lparr> navigator = Some \<lparr> userAgent = ''Firefox/121.0'', language = ''en-US'' \<rparr>,
       timeZone = ''Asia/Tokyo'',
       fetch = (\<lambda>url arg. Inr \<lparr> ok = True, status = 200, json = Inr (JObj [(''id'', JStr ''t1'')]) \<rparr>) \<rparr>
      [(''message'', JStr ''Hello''), (''platform'', JStr ''ios''), (''locale'', JStr ''ja-JP'')]) ''app_version'' = JStr ''2.0.0''"
  using createTicket_fills_device_fields
      [of "\<lparr> this_baseUrl = ''https://api.example.com/api/v1'', this_tenantKey = ''test-tenant'',
       this_getToken = Inr ''test-token'', this_appVersion = Some ''2.0.0'' \<rparr>"
          "''test-token''"
          "\<lparr> navigator = Some \<lparr> userAgent = ''Firefox/121.0'', language = ''en-US'' \<rparr>,
       timeZone = ''Asia/Tokyo'',
       fetch = (\<lambda>url arg. Inr \<lparr> ok = True, status = 200, json = Inr (JObj [(''id'', JStr ''t1'')]) \<rparr>) \<rparr>"
          "[(''message'', JStr ''Hello''), (''platform'', JStr ''ios''), (''locale'', JStr ''ja-JP'')]"]
  by (simp add: createTicket_body_def spread_def obj_get_def nullish_def coalesce_def
        detectDeviceInfo_def detectBrowser_def match_at_def digit_or_dot_def is_digit_def)

section \<open>An explicit null in the parameters of a created ticket\<close>

lemma createTicket_body_autofill:
  "obj_get (createTicket_body this env params) k =
     (if k \<in> set autofill_keys
      then coalesce (obj_get params k) (autofill_value this env k)
      else obj_get params k)"
  unfolding createTicket_body_get autofill_keys_def autofill_value_def by simp

lemma json_of_autofill: "json_of (autofill_value this env k) = Inr (autofill_value this env k)"
  unfolding autofill_value_def by (simp split: option.splits)

lemma autofill_not_null: "autofill_value this env k \<noteq> JNull"
  unfolding autofill_value_def by (simp split: option.splits)

lemma json_props_isl:
  "isl (json_props ps) \<longleftrightarrow> (\<exists>p \<in> set ps. isl (json_of (snd p)))"
proof (induction ps)
  case Nil
  show ?case by simp
next
  case (Cons p ps)
  show ?case
  proof (cases "snd p = JUndefined")
    case True
    with Cons show ?thesis by simp
  next
    case False
    with Cons show ?thesis by (cases "json_of (snd p)"; cases "json_props ps") auto
  qed
qed

lemma obj_get_entry:
  assumes "distinct (map fst ps)" and "p \<in> set ps"
  shows "obj_get ps (fst p) = snd p"
proof -
  from assms have "map_of ps (fst p) = Some (snd p)" by (cases p) simp
  with assms(1) show ?thesis by (simp only: obj_get_def map_of_rev_distinct option.case)
qed

lemma obj_get_cases:
  "obj_get ps k = JUndefined \<or> (\<exists>p \<in> set ps. obj_get ps k = snd p)"
proof (cases "map_of (rev ps) k")
  case None
  then show ?thesis by (simp add: obj_get_def)
next
  case (Some v)
  then have "(k, v) \<in> set (rev ps)" by (rule map_of_SomeD)
  with Some show ?thesis by (force simp: obj_get_def)
qed

lemma json_of_JObj_isl:
  assumes "distinct (map fst ps)"
  shows "isl (json_of (JObj ps)) \<longleftrightarrow> (\<exists>k. isl (json_of (obj_get ps k)))"
proof
  assume "isl (json_of (JObj ps))"
  then have "isl (json_props ps)" by (simp split: sum.splits)
  then obtain p where p: "p \<in> set ps" and bad: "isl (json_of (snd p))"
    unfolding json_props_isl by blast
  from obj_get_entry [OF assms p] bad have "isl (json_of (obj_get ps (fst p)))" by (simp only:)
  then show "\<exists>k. isl (json_of (obj_get ps k))" ..
next
  assume "\<exists>k. isl (json_of (obj_get ps k))"
  then obtain k where bad: "isl (json_of (obj_get ps k))" ..
  from obj_get_cases [of ps k] have "\<exists>p \<in> set ps. isl (json_of (snd p))"
  proof
    assume "obj_get ps k = JUndefined"
    with bad show ?thesis by simp
  next
    assume "\<exists>p \<in> set ps. obj_get ps k = snd p"
    then obtain p where "p \<in> set ps" and "obj_get ps k = snd p" by blast
    with bad show ?thesis by auto
  qed
  then have "isl (json_props ps)" unfolding json_props_isl .
  then show "isl (json_of (JObj ps))" by (cases "json_props ps") simp_all
qed

text \<open>
  Claim C10. Take one of the six keys \<open>createTicket\<close> fills in and a parameters object
  that holds the key with the value \<open>null\<close>. (When a parameter cannot be serialised the
  call throws before any request and no body exists.) Otherwise the field the body carries
  for the key is the auto-detected value of the environment, or the configured application
  version: the very value, whatever else the parameters hold. It is never \<open>null\<close>. And
  the body agrees, field by field, with the body of the call whose parameters lack the
  key.
\<close>

theorem createTicket_null_is_omitted:
  assumes "F \<in> set [''platform'', ''os_version'', ''device_model'', ''locale'', ''timezone'',
                     ''app_version'']"
    and "this_getToken this = Inr t"
  shows
   "case json_of (JObj (createTicket_body this env (obj_set F JNull params))) of
      Inl thrown_first \<Rightarrow>
        createTicket this env (obj_set F JNull params) = ([], Inl thrown_first)
    | Inr document \<Rightarrow>
        sent_field (createTicket this env (obj_set F JNull params)) F =
          autofill_value this env F \<and>
        sent_field (createTicket this env (obj_set F JNull params)) F \<noteq> JNull \<and>
        (\<forall>k. sent_field (createTicket this env (obj_set F JNull params)) k =
             sent_field (createTicket this env (filter (\<lambda>p. fst p \<noteq> F) params)) k)"
proof (cases "json_of (JObj (createTicket_body this env (obj_set F JNull params)))")
  case (Inl e)
  then show ?thesis by (simp add: createTicket_not_serialised del: json_of.simps)
next
  case (Inr d)
  let ?null = "obj_set F JNull params"
  let ?omitted = "filter (\<lambda>p. fst p \<noteq> F) params"
  from assms(1) have F: "F \<in> set autofill_keys" by (simp only: autofill_keys_def)
  have with_null: "obj_get (createTicket_body this env ?null) k =
      (if k = F then autofill_value this env F else obj_get (createTicket_body this env params) k)"
    for k
    using F by (simp add: createTicket_body_autofill obj_get_obj_set coalesce_def nullish_def)
  have omitted: "obj_get (createTicket_body this env ?omitted) k =
      (if k = F then autofill_value this env F else obj_get (createTicket_body this env params) k)"
    for k
    using F by (simp add: createTicket_body_autofill obj_get_without coalesce_def nullish_def)
  have same: "obj_get (createTicket_body this env ?omitted) k =
      obj_get (createTicket_body this env ?null) k" for k
    by (simp only: with_null omitted)
  from Inr have "\<not> isl (json_of (JObj (createTicket_body this env ?null)))" by (simp del: json_of.simps)
  then have "\<not> isl (json_of (JObj (createTicket_body this env ?omitted)))"
    unfolding json_of_JObj_isl [OF createTicket_body_distinct] same .
  then obtain d' where d': "json_of (JObj (createTicket_body this env ?omitted)) = Inr d'"
    by (cases "json_of (JObj (createTicket_body this env ?omitted))") simp_all
  have sent_null: "Inr (sent_field (createTicket this env ?null) k) =
      json_of (obj_get (createTicket_body this env ?null) k)" for k
    using assms(2) Inr by (rule sent_field_createTicket)
  have sent_omitted: "Inr (sent_field (createTicket this env ?omitted) k) =
      json_of (obj_get (createTicket_body this env ?null) k)" for k
    using sent_field_createTicket [OF assms(2) d', of k] by (simp only: same)
  have "json_of (obj_get (createTicket_body this env ?null) F) = Inr (autofill_value this env F)"
    by (simp add: with_null json_of_autofill del: json_of.simps)
  with sent_null [of F]
  have autofilled: "sent_field (createTicket this env ?null) F = autofill_value this env F"
    by (simp del: json_of.simps)
  have agree: "sent_field (createTicket this env ?null) k =
      sent_field (createTicket this env ?omitted) k" for k
  proof -
    have "Inr (sent_field (createTicket this env ?null) k) =
          json_of (obj_get (createTicket_body this env ?null) k)"
      by (rule sent_null)
    also have "\<dots> = Inr (sent_field (createTicket this env ?omitted) k)"
      by (rule sent_omitted [symmetric])
    finally show ?thesis by (rule Inr_inject)
  qed
  from autofilled autofill_not_null [of this env F] agree show ?thesis
    unfolding Inr sum.case by (simp only: simp_thms)
qed

theorem createTicket_null_is_omitted_witness:
  "''platform'' \<in> set [''platform'', ''os_version'', ''device_model'', ''locale'', ''timezone'',
                        ''app_version''] \<and>
   sent_field (createTicket
      \<lparr> this_baseUrl = ''https://api.example.com/api/v1'', this_tenantKey = ''test-tenant'',
       this_getToken = Inr ''test-token'', this_appVersion = Some ''2.0.0'' \<rparr>
      \<lparr> navigator = Some \<lparr> userAgent = ''Firefox/121.0'', language = ''en-US'' \<rparr>,
       timeZone = ''Asia/Tokyo'',
       fetch = (\<lambda>url arg. Inr \<lparr> ok = True, status = 200, json = Inr (JObj [(''id'', JStr ''t1'')]) \<rparr>) \<rparr>
      (obj_set ''platform'' JNull [(''message'', JStr ''Hello'')])) ''platform'' = JStr ''web'' \<and>
   sent_field (createTicket
      \<lparr> this_baseUrl = ''https://api.example.com/api/v1'', this_tenantKey = ''test-tenant'',
       this_getToken = Inr ''test-token'', this_appVersion = Some ''2.0.0'' \<rparr>
      \<lparr> navigator = Some \<lparr> userAgent = ''Firefox/121.0'', language = ''en-US'' \<rparr>,
       timeZone = ''Asia/Tokyo'',
       fetch = (\<lambda>url arg. Inr \<lparr> ok = True, status = 200, json = Inr (JObj [(''id'', JStr ''t1'')]) \<rparr>) \<rparr>
      (obj_set ''platform'' JNull [(''message'', JStr ''Hello'')])) ''message'' = JStr ''Hello''"
  using createTicket_null_is_omitted
      [of "''platform''"
          "\<lparr> this_baseUrl = ''https://api.example.com/api/v1'', this_tenantKey = ''test-tenant'',
       this_getToken = Inr ''test-token'', this_appVersion = Some ''2.0.0'' \<rparr>"
          "''test-token''"
          "\<lparr> navigator = Some \<lparr> userAgent = ''Firefox/121.0'', language = ''en-US'' \<rparr>,
       timeZone = ''Asia/Tokyo'',
       fetch = (\<lambda>url arg. Inr \<lparr> ok = True, status = 200, json = Inr (JObj [(''id'', JStr ''t1'')]) \<rparr>) \<rparr>"
          "[(''message'', JStr ''Hello'')]"]
  by (simp add: run_defs createTicket_body_def autofill_value_def detectDeviceInfo_def)

end
